theory Spec2Isabelle
  imports Complex_Main "HOL-Library.Sublist" "HOL-Library.Word"
begin

section \<open>Basic values: error texts and decimal formatting\<close>

text \<open>
  A Go \<^verbatim>\<open>error\<close> is used by this program only through its text (\<^verbatim>\<open>err.Error()\<close>,
  \<^verbatim>\<open>%w\<close> and \<^verbatim>\<open>%v\<close> in \<^verbatim>\<open>fmt.Errorf\<close>), so an error value is its text and a result
  of type \<^verbatim>\<open>error\<close> is a \<open>string option\<close> with \<open>None\<close> for \<^verbatim>\<open>nil\<close>.
\<close>

type_synonym error = string

definition digitChar :: "nat \<Rightarrow> char" where
  "digitChar d = ''0123456789'' ! d"

function showNat :: "nat \<Rightarrow> string" where
  "showNat n = (if n < 10 then [digitChar n] else showNat (n div 10) @ [digitChar (n mod 10)])"
  by pat_completeness auto
termination
  by (relation "measure id") auto

declare showNat.simps [simp del]

definition showInt :: "int \<Rightarrow> string" where
  \<comment> \<open>the verb \<^verbatim>\<open>%d\<close> of package fmt on an integer\<close>
  "showInt i = (if i < 0 then CHR ''-'' # showNat (nat (- i)) else showNat (nat i))"

section \<open>Package retry\<close>

subsection \<open>Error classification\<close>

function containsSubstring_loop :: "string \<Rightarrow> string \<Rightarrow> nat \<Rightarrow> bool" where
  "containsSubstring_loop s substr i =
     (if int i \<le> int (length s) - int (length substr)
      then (if take (length substr) (drop i s) = substr then True
            else containsSubstring_loop s substr (i + 1))
      else False)"
  by pat_completeness auto
termination
  by (relation "measure (\<lambda>(s, substr, i). length s + 1 - i)") auto

declare containsSubstring_loop.simps [simp del]

definition containsSubstring :: "string \<Rightarrow> string \<Rightarrow> bool" where
  "containsSubstring s substr = containsSubstring_loop s substr 0"

definition contains :: "string \<Rightarrow> string \<Rightarrow> bool" where
  "contains s substr =
     (length s \<ge> length substr \<and>
      (s = substr \<or> length s > length substr \<and> containsSubstring s substr))"

definition temporaryErrors :: "string list" where
  "temporaryErrors =
     [''421'', ''450'', ''451'', ''452'', ''timeout'', ''connection refused'',
      ''connection reset'', ''temporary failure'']"

definition permanentErrors :: "string list" where
  "permanentErrors = [''550'', ''551'', ''552'', ''553'', ''554'']"

fun containsAny :: "string \<Rightarrow> string list \<Rightarrow> bool" where
  \<comment> \<open>the \<^verbatim>\<open>for _, x := range xs { if contains(errStr, x) { return ... } }\<close> loops\<close>
  "containsAny errStr [] = False"
| "containsAny errStr (x # xs) = (if contains errStr x then True else containsAny errStr xs)"

definition IsRetryable :: "error \<Rightarrow> bool" where
  "IsRetryable errStr =
     (if containsAny errStr temporaryErrors then True
      else if containsAny errStr permanentErrors then False
      else True)"

subsection \<open>Configuration and backoff\<close>

text \<open>
  \<^verbatim>\<open>time.Duration\<close> is a count of nanoseconds. \<^verbatim>\<open>calculateBackoff\<close> computes in
  \<^verbatim>\<open>float64\<close>; the model computes the same expression in exact rational arithmetic
  and truncates towards zero, as the conversion \<^verbatim>\<open>time.Duration(delay)\<close> does. The two
  agree whenever every intermediate value is an integer of magnitude below \<open>2^53\<close>
  (as with the default configuration); rounding of \<^verbatim>\<open>float64\<close> is not modelled.
\<close>

record Config =
  MaxAttempts :: int
  InitialDelay :: int
  MaxDelay :: int
  Multiplier :: rat

definition second :: int where
  "second = 1000000000"

definition DefaultConfig :: Config where
  "DefaultConfig =
     \<lparr>MaxAttempts = 5, InitialDelay = 1 * second, MaxDelay = 30 * second, Multiplier = 2\<rparr>"

definition toDuration :: "rat \<Rightarrow> int" where
  "toDuration x = (if x < 0 then \<lceil>x\<rceil> else \<lfloor>x\<rfloor>)"

definition calculateBackoff :: "int \<Rightarrow> Config \<Rightarrow> int" where
  "calculateBackoff attempt config =
     (let delay = of_int (InitialDelay config) * (Multiplier config) powi (attempt - 1);
          delay = (if delay > of_int (MaxDelay config) then of_int (MaxDelay config) else delay)
      in toDuration delay)"

subsection \<open>The retry loop\<close>

text \<open>
  The operation and the wait between attempts act on the world outside \<^verbatim>\<open>Do\<close>; both are
  state transformers on a state \<open>'s\<close>. The wait stands for the \<^verbatim>\<open>select\<close> between
  \<^verbatim>\<open>time.After(delay)\<close> and \<^verbatim>\<open>ctx.Done()\<close>: it answers \<open>Some\<close> of the text of
  \<^verbatim>\<open>ctx.Err()\<close> when the context is done first, \<open>None\<close> when the delay has elapsed.
  The loop variable \<^verbatim>\<open>attempt\<close> never exceeds \<^verbatim>\<open>MaxAttempts\<close>, so it cannot overflow.
\<close>

type_synonym 's RetryableFunc = "'s \<Rightarrow> error option \<times> 's"
type_synonym 's Waiter = "int \<Rightarrow> 's \<Rightarrow> error option \<times> 's"

definition maxAttemptsError :: "Config \<Rightarrow> error option \<Rightarrow> error" where
  \<comment> \<open>\<^verbatim>\<open>fmt.Errorf("max attempts reached (%d): %w", config.MaxAttempts, lastErr)\<close>\<close>
  "maxAttemptsError config lastErr =
     ''max attempts reached ('' @ showInt (MaxAttempts config) @ ''): '' @
     (case lastErr of None \<Rightarrow> ''%!w(<nil>)'' | Some e \<Rightarrow> e)"

definition permanentError :: "Config \<Rightarrow> int \<Rightarrow> error \<Rightarrow> error" where
  \<comment> \<open>\<^verbatim>\<open>fmt.Errorf("permanent error (attempt %d/%d): %w", attempt, config.MaxAttempts, err)\<close>\<close>
  "permanentError config attempt err =
     ''permanent error (attempt '' @ showInt attempt @ ''/'' @ showInt (MaxAttempts config) @
     ''): '' @ err"

function Do_loop ::
  "Config \<Rightarrow> 's RetryableFunc \<Rightarrow> 's Waiter \<Rightarrow> int \<Rightarrow> error option \<Rightarrow> 's \<Rightarrow> error option \<times> 's"
where
  "Do_loop config fn wait attempt lastErr s =
     (if attempt \<le> MaxAttempts config then
        (case fn s of
           (None, s1) \<Rightarrow> (None, s1)
         | (Some err, s1) \<Rightarrow>
             if \<not> IsRetryable err then (Some (permanentError config attempt err), s1)
             else if attempt = MaxAttempts config then (Some (maxAttemptsError config (Some err)), s1)
             else (case wait (calculateBackoff attempt config) s1 of
                     (Some cerr, s2) \<Rightarrow> (Some (''retry cancelled: '' @ cerr), s2)
                   | (None, s2) \<Rightarrow> Do_loop config fn wait (attempt + 1) (Some err) s2))
      else (Some (maxAttemptsError config lastErr), s))"
  by pat_completeness auto
termination
  by (relation "measure (\<lambda>(config, fn, wait, attempt, lastErr, s). nat (MaxAttempts config - attempt))")
     auto

declare Do_loop.simps [simp del]

definition Do :: "Config \<Rightarrow> 's RetryableFunc \<Rightarrow> 's Waiter \<Rightarrow> 's \<Rightarrow> error option \<times> 's" where
  "Do config fn wait s = Do_loop config fn wait 1 None s"

subsection \<open>Observing a run of the retry loop\<close>

text \<open>
  To count invocations and waits, the operation and the wait are wrapped so that each
  call appends an event to a trace kept beside the state. \<open>Do\<close> itself is unchanged:
  the wrapped functions are ordinary arguments of it.
\<close>

datatype event = Invoked "error option" | Waited int

definition counted :: "'s RetryableFunc \<Rightarrow> ('s \<times> event list) RetryableFunc" where
  "counted fn = (\<lambda>(s, tr). case fn s of (r, s1) \<Rightarrow> (r, (s1, tr @ [Invoked r])))"

definition logged :: "'s Waiter \<Rightarrow> ('s \<times> event list) Waiter" where
  "logged wait = (\<lambda>d (s, tr). case wait d s of (r, s1) \<Rightarrow> (r, (s1, tr @ [Waited d])))"

fun invocations :: "event list \<Rightarrow> nat" where
  "invocations [] = 0"
| "invocations (Invoked r # es) = Suc (invocations es)"
| "invocations (Waited d # es) = invocations es"

fun waits :: "event list \<Rightarrow> int list" where
  "waits [] = []"
| "waits (Invoked r # es) = waits es"
| "waits (Waited d # es) = d # waits es"

section \<open>Package domain\<close>

type_synonym byte = "8 word"

record Attachment =
  Filename :: string
  ContentType :: string
  Data :: "byte list"

text \<open>
  \<^verbatim>\<open>Headers\<close> is a Go map; the list holds its entries in the order in which a
  \<^verbatim>\<open>range\<close> loop visits them. \<^verbatim>\<open>Priority\<close> is a Go \<^verbatim>\<open>int\<close> with three named values,
  \<^verbatim>\<open>Status\<close> a string with five; \<^verbatim>\<open>Attempts\<close> is a 64-bit \<^verbatim>\<open>int\<close> (its bit pattern).
\<close>

record Email =
  ID :: string
  From :: string
  To :: "string list"
  Cc :: "string list"
  Bcc :: "string list"
  Subject :: string
  TextBody :: string
  HTMLBody :: string
  Attachments :: "Attachment list"
  Headers :: "(string \<times> string) list"
  Priority :: int
  CreatedAt :: int
  Status :: string
  Attempts :: "64 word"
  LastError :: string

definition PriorityLow :: int where "PriorityLow = 0"
definition PriorityNormal :: int where "PriorityNormal = 1"
definition PriorityHigh :: int where "PriorityHigh = 2"

definition StatusPending :: string where "StatusPending = ''pending''"
definition StatusSending :: string where "StatusSending = ''sending''"
definition StatusSent :: string where "StatusSent = ''sent''"
definition StatusFailed :: string where "StatusFailed = ''failed''"
definition StatusRetrying :: string where "StatusRetrying = ''retrying''"

subsection \<open>The address pattern\<close>

text \<open>
  \<^verbatim>\<open>isValidEmail\<close> matches the whole address against the regular expression
  \<^verbatim>\<open>^[a-zA-Z0-9._%+\-]+@[a-zA-Z0-9.\-]+\.[a-zA-Z]{2,}$\<close>. The expression is kept as a
  value and matched by derivatives; \<open>Class cs\<close> is a character class.
\<close>

datatype regex = Class "char list" | Seq regex regex | Alt regex regex | Star regex | Eps | Empty

fun nullable :: "regex \<Rightarrow> bool" where
  "nullable (Class cs) = False"
| "nullable (Seq r s) = (nullable r \<and> nullable s)"
| "nullable (Alt r s) = (nullable r \<or> nullable s)"
| "nullable (Star r) = True"
| "nullable Eps = True"
| "nullable Empty = False"

fun deriv :: "char \<Rightarrow> regex \<Rightarrow> regex" where
  "deriv c (Class cs) = (if c \<in> set cs then Eps else Empty)"
| "deriv c (Seq r s) =
     (if nullable r then Alt (Seq (deriv c r) s) (deriv c s) else Seq (deriv c r) s)"
| "deriv c (Alt r s) = Alt (deriv c r) (deriv c s)"
| "deriv c (Star r) = Seq (deriv c r) (Star r)"
| "deriv c Eps = Empty"
| "deriv c Empty = Empty"

fun MatchString :: "regex \<Rightarrow> string \<Rightarrow> bool" where
  "MatchString r [] = nullable r"
| "MatchString r (c # cs) = MatchString (deriv c r) cs"

definition letters :: "char list" where
  "letters = ''abcdefghijklmnopqrstuvwxyzABCDEFGHIJKLMNOPQRSTUVWXYZ''"

definition alnum :: "char list" where
  "alnum = letters @ ''0123456789''"

definition oneOrMore :: "regex \<Rightarrow> regex" where
  "oneOrMore r = Seq r (Star r)"

definition pattern :: regex where
  "pattern =
     Seq (oneOrMore (Class (alnum @ ''._%+-'')))
       (Seq (Class ''@'')
         (Seq (oneOrMore (Class (alnum @ ''.-'')))
           (Seq (Class ''.'')
             (Seq (Class letters) (Seq (Class letters) (Star (Class letters)))))))"

definition isValidEmail :: "string \<Rightarrow> bool" where
  "isValidEmail email = MatchString pattern email"

subsection \<open>Validation and the builder\<close>

fun validateTo :: "string list \<Rightarrow> error option" where
  \<comment> \<open>the loop over \<^verbatim>\<open>e.To\<close> in \<^verbatim>\<open>Validate\<close>\<close>
  "validateTo [] = None"
| "validateTo (addr # addrs) =
     (if \<not> isValidEmail addr then Some (''invalid to address: '' @ addr) else validateTo addrs)"

definition Validate :: "Email \<Rightarrow> error option" where
  "Validate e =
     (if From e = [] then Some ''from address is required''
      else if \<not> isValidEmail (From e) then Some (''invalid from address: '' @ From e)
      else if length (To e) = 0 then Some ''at least one recipient is required''
      else (case validateTo (To e) of
              Some err \<Rightarrow> Some err
            | None \<Rightarrow>
                if Subject e = [] then Some ''subject is required''
                else if TextBody e = [] \<and> HTMLBody e = []
                  then Some ''at least one body (text or HTML) is required''
                else None))"

text \<open>
  An \<^verbatim>\<open>EmailBuilder\<close> holds one pointer to the \<^verbatim>\<open>Email\<close> under construction; each
  method updates that email and returns the builder, so a builder is the email it holds.
  The argument of \<open>NewEmailBuilder\<close> is the reading of \<^verbatim>\<open>time.Now()\<close>.
\<close>

definition NewEmailBuilder :: "int \<Rightarrow> Email" where
  "NewEmailBuilder now =
     \<lparr>ID = [], From = [], To = [], Cc = [], Bcc = [], Subject = [], TextBody = [], HTMLBody = [],
      Attachments = [], Headers = [], Priority = PriorityNormal, CreatedAt = now,
      Status = StatusPending, Attempts = 0, LastError = []\<rparr>"

definition EmailBuilder_From :: "string \<Rightarrow> Email \<Rightarrow> Email" where
  "EmailBuilder_From from b = b\<lparr>From := from\<rparr>"

definition EmailBuilder_To :: "string list \<Rightarrow> Email \<Rightarrow> Email" where
  "EmailBuilder_To to b = b\<lparr>To := To b @ to\<rparr>"

definition EmailBuilder_Cc :: "string list \<Rightarrow> Email \<Rightarrow> Email" where
  "EmailBuilder_Cc cc b = b\<lparr>Cc := Cc b @ cc\<rparr>"

definition EmailBuilder_Bcc :: "string list \<Rightarrow> Email \<Rightarrow> Email" where
  "EmailBuilder_Bcc bcc b = b\<lparr>Bcc := Bcc b @ bcc\<rparr>"

definition EmailBuilder_Subject :: "string \<Rightarrow> Email \<Rightarrow> Email" where
  "EmailBuilder_Subject subject b = b\<lparr>Subject := subject\<rparr>"

definition EmailBuilder_TextBody :: "string \<Rightarrow> Email \<Rightarrow> Email" where
  "EmailBuilder_TextBody body b = b\<lparr>TextBody := body\<rparr>"

definition EmailBuilder_HTMLBody :: "string \<Rightarrow> Email \<Rightarrow> Email" where
  "EmailBuilder_HTMLBody body b = b\<lparr>HTMLBody := body\<rparr>"

definition EmailBuilder_Attach :: "string \<Rightarrow> string \<Rightarrow> byte list \<Rightarrow> Email \<Rightarrow> Email" where
  "EmailBuilder_Attach filename contentType bytes b =
     b\<lparr>Attachments := Attachments b @
        [\<lparr>Filename = filename, ContentType = contentType, Data = bytes\<rparr>]\<rparr>"

definition EmailBuilder_Priority :: "int \<Rightarrow> Email \<Rightarrow> Email" where
  "EmailBuilder_Priority priority b = b\<lparr>Priority := priority\<rparr>"

fun mapAssign :: "string \<Rightarrow> string \<Rightarrow> (string \<times> string) list \<Rightarrow> (string \<times> string) list" where
  \<comment> \<open>the map assignment \<^verbatim>\<open>m[key] = v\<close>: an entry with the key is replaced\<close>
  "mapAssign k v [] = [(k, v)]"
| "mapAssign k v ((k1, v1) # m) = (if k1 = k then (k, v) # m else (k1, v1) # mapAssign k v m)"

definition EmailBuilder_Header :: "string \<Rightarrow> string \<Rightarrow> Email \<Rightarrow> Email" where
  "EmailBuilder_Header k v b = b\<lparr>Headers := mapAssign k v (Headers b)\<rparr>"

definition EmailBuilder_Build :: "Email \<Rightarrow> error + Email" where
  "EmailBuilder_Build b = (case Validate b of Some err \<Rightarrow> Inl err | None \<Rightarrow> Inr b)"

definition sampleBuilder :: Email where
  "sampleBuilder =
     EmailBuilder_TextBody ''hello''
       (EmailBuilder_Subject ''greetings''
         (EmailBuilder_To [''bob@example.org'']
           (EmailBuilder_From ''alice@example.org'' (NewEmailBuilder 0))))"

section \<open>Package application: the email service\<close>

text \<open>
  The service calls its sender through the interface \<^verbatim>\<open>EmailSender\<close>. A sender reads
  the email (as \<^verbatim>\<open>SMTPClient.Send\<close> does) and acts on a state of its own. The closure
  handed to \<^verbatim>\<open>retry.Do\<close> increments \<^verbatim>\<open>email.Attempts\<close> and then calls the sender, so the
  state that \<open>Do\<close> threads is the email together with the sender's state.
\<close>

type_synonym 's EmailSender = "Email \<Rightarrow> 's \<Rightarrow> error option \<times> 's"

definition sendAttempt :: "'s EmailSender \<Rightarrow> (Email \<times> 's) RetryableFunc" where
  "sendAttempt sender = (\<lambda>(email, s).
     let email = email\<lparr>Attempts := Attempts email + 1\<rparr>
     in case sender email s of (r, s1) \<Rightarrow> (r, (email, s1)))"

definition besideEmail :: "'s Waiter \<Rightarrow> (Email \<times> 's) Waiter" where
  "besideEmail wait = (\<lambda>d (email, s). case wait d s of (r, s1) \<Rightarrow> (r, (email, s1)))"

definition SendEmail ::
  "Config \<Rightarrow> 's EmailSender \<Rightarrow> 's Waiter \<Rightarrow> Email \<Rightarrow> 's \<Rightarrow> error option \<times> Email \<times> 's" where
  "SendEmail retryConfig sender wait email s =
     (case Validate email of
        Some err \<Rightarrow> (Some (''validation failed: '' @ err), email, s)
      | None \<Rightarrow>
          (let email = email\<lparr>Status := StatusSending\<rparr>
           in case Do retryConfig (sendAttempt sender) (besideEmail wait) (email, s) of
                (Some err, (email, s1)) \<Rightarrow>
                  (Some (''failed to send email: '' @ err),
                   email\<lparr>Status := StatusFailed, LastError := err\<rparr>, s1)
              | (None, (email, s1)) \<Rightarrow> (None, email\<lparr>Status := StatusSent\<rparr>, s1)))"

text \<open>Counting the calls of the sender: the count is kept beside the sender's state.\<close>

definition countingSender :: "'s EmailSender \<Rightarrow> ('s \<times> nat) EmailSender" where
  "countingSender sender = (\<lambda>email (s, n). case sender email s of (r, s1) \<Rightarrow> (r, (s1, Suc n)))"

definition besideCount :: "'s Waiter \<Rightarrow> ('s \<times> nat) Waiter" where
  "besideCount wait = (\<lambda>d (s, n). case wait d s of (r, s1) \<Rightarrow> (r, (s1, n)))"

definition attemptsInv :: "Email \<Rightarrow> nat \<Rightarrow> Email \<times> 's \<times> nat \<Rightarrow> bool" where
  \<comment> \<open>what a run of the retry loop keeps true of the email and the count of sender calls\<close>
  "attemptsInv e0 n0 = (\<lambda>(email, s, n).
     n0 \<le> n \<and> Attempts email = Attempts e0 + of_nat (n - n0) \<and>
     email\<lparr>Attempts := Attempts e0\<rparr> = e0)"

definition flakySender :: "nat EmailSender" where
  \<comment> \<open>a sender whose first call is refused by the server and whose later calls succeed\<close>
  "flakySender = (\<lambda>email k. (if k = 0 then Some ''550 mailbox unavailable'' else None, Suc k))"

definition neverDone :: "'s Waiter" where
  \<comment> \<open>a context that is never done: every wait lasts its whole delay\<close>
  "neverDone = (\<lambda>d s. (None, s))"

section \<open>Package infrastructure: the message builder\<close>

subsection \<open>Base64, standard encoding\<close>

text \<open>
  \<^verbatim>\<open>base64.StdEncoding.EncodeToString\<close> belongs to the Go standard library. It is
  modelled after RFC 4648, section 4: three bytes make four characters of the standard
  alphabet, and a last group of one or two bytes is padded with \<open>=\<close>. \<open>DecodeString\<close>
  is the strict decoder of the same encoding (no line breaks inside its input).
\<close>

definition encodeStd :: string where
  "encodeStd = ''ABCDEFGHIJKLMNOPQRSTUVWXYZabcdefghijklmnopqrstuvwxyz0123456789+/''"

definition encChar :: "nat \<Rightarrow> char" where
  "encChar i = encodeStd ! i"

definition decChar :: "char \<Rightarrow> nat option" where
  "decChar c = map_of (zip encodeStd [0..<64]) c"

fun EncodeToString :: "byte list \<Rightarrow> string" where
  "EncodeToString (a # b # c # src) =
     (let val = unat a * 65536 + unat b * 256 + unat c
      in [encChar (val div 262144 mod 64), encChar (val div 4096 mod 64),
          encChar (val div 64 mod 64), encChar (val mod 64)]) @ EncodeToString src"
| "EncodeToString [a, b] =
     (let val = unat a * 65536 + unat b * 256
      in [encChar (val div 262144 mod 64), encChar (val div 4096 mod 64),
          encChar (val div 64 mod 64), CHR ''=''])"
| "EncodeToString [a] =
     (let val = unat a * 65536
      in [encChar (val div 262144 mod 64), encChar (val div 4096 mod 64), CHR ''='', CHR ''=''])"
| "EncodeToString [] = []"

fun DecodeString :: "string \<Rightarrow> byte list option" where
  "DecodeString [] = Some []"
| "DecodeString (c0 # c1 # c2 # c3 # s) =
     (if c2 = CHR ''='' \<and> c3 = CHR ''='' \<and> s = [] then
        (case (decChar c0, decChar c1) of
           (Some x0, Some x1) \<Rightarrow>
             (let val = x0 * 262144 + x1 * 4096 in Some [of_nat (val div 65536)])
         | _ \<Rightarrow> None)
      else if c3 = CHR ''='' \<and> s = [] then
        (case (decChar c0, decChar c1, decChar c2) of
           (Some x0, Some x1, Some x2) \<Rightarrow>
             (let val = x0 * 262144 + x1 * 4096 + x2 * 64
              in Some [of_nat (val div 65536), of_nat (val div 256 mod 256)])
         | _ \<Rightarrow> None)
      else
        (case (decChar c0, decChar c1, decChar c2, decChar c3, DecodeString s) of
           (Some x0, Some x1, Some x2, Some x3, Some bs) \<Rightarrow>
             (let val = x0 * 262144 + x1 * 4096 + x2 * 64 + x3
              in Some (of_nat (val div 65536) # of_nat (val div 256 mod 256) #
                       of_nat (val mod 256) # bs))
         | _ \<Rightarrow> None))"
| "DecodeString s = None"

subsection \<open>Writing the message\<close>

definition CR :: char where "CR = CHR 0x0D"
definition LF :: char where "LF = CHR 0x0A"
definition CRLF :: string where "CRLF = [CR, LF]"
definition dquote :: string where "dquote = [CHR 0x22]"

definition WriteString :: "string \<Rightarrow> string \<Rightarrow> string" where
  \<comment> \<open>\<^verbatim>\<open>buf.WriteString(s)\<close> on a \<^verbatim>\<open>bytes.Buffer\<close>: the new content of the buffer\<close>
  "WriteString buf s = buf @ s"

fun Join :: "string list \<Rightarrow> string \<Rightarrow> string" where
  \<comment> \<open>\<^verbatim>\<open>strings.Join\<close>\<close>
  "Join [] sep = []"
| "Join [x] sep = x"
| "Join (x # xs) sep = x @ sep @ Join xs sep"

text \<open>
  What \<^verbatim>\<open>buildMessage\<close> reads from outside the email: the four readings of the clock
  (nanoseconds for the two boundaries and the message id, the formatted date), the
  standard library's \<^verbatim>\<open>mime.BEncoding.Encode("UTF-8", subject)\<close> and the configured host.
\<close>

record BuildEnv =
  nowOuter :: int
  nowInner :: int
  nowDate :: string
  nowMessageID :: int
  encodeSubject :: "string \<Rightarrow> string"
  configHost :: string

fun writeCustomHeaders :: "(string \<times> string) list \<Rightarrow> string \<Rightarrow> string" where
  \<comment> \<open>the loop \<^verbatim>\<open>for key, value := range email.Headers\<close>\<close>
  "writeCustomHeaders [] buf = buf"
| "writeCustomHeaders ((k, v) # hs) buf =
     writeCustomHeaders hs (WriteString buf (k @ '': '' @ v @ CRLF))"

function writeEncoded :: "string \<Rightarrow> nat \<Rightarrow> string \<Rightarrow> string" where
  \<comment> \<open>the loop \<^verbatim>\<open>for i := 0; i < len(encoded); i += 76\<close>\<close>
  "writeEncoded encoded i buf =
     (if i < length encoded then
        (let end = i + 76;
             end = (if end > length encoded then length encoded else end);
             buf = WriteString buf (take (end - i) (drop i encoded));
             buf = WriteString buf CRLF
         in writeEncoded encoded (i + 76) buf)
      else buf)"
  by pat_completeness auto
termination
  by (relation "measure (\<lambda>(encoded, i, buf). length encoded - i)") auto

declare writeEncoded.simps [simp del]

fun writeAttachments :: "string \<Rightarrow> Attachment list \<Rightarrow> string \<Rightarrow> string" where
  \<comment> \<open>the loop \<^verbatim>\<open>for _, att := range email.Attachments\<close>\<close>
  "writeAttachments outerBoundary [] buf = buf"
| "writeAttachments outerBoundary (att # atts) buf =
     (let buf = WriteString buf (''--'' @ outerBoundary @ CRLF);
          buf = WriteString buf (''Content-Type: '' @ ContentType att @ ''; name='' @ dquote @
                                 Filename att @ dquote @ CRLF);
          buf = WriteString buf (''Content-Transfer-Encoding: base64'' @ CRLF);
          buf = WriteString buf (''Content-Disposition: attachment; filename='' @ dquote @
                                 Filename att @ dquote @ CRLF);
          buf = WriteString buf CRLF;
          encoded = EncodeToString (Data att);
          buf = writeEncoded encoded 0 buf;
          buf = WriteString buf CRLF
      in writeAttachments outerBoundary atts buf)"

definition buildMessage :: "BuildEnv \<Rightarrow> Email \<Rightarrow> string \<times> error option" where
  "buildMessage env email =
     (let buf = [];
          outerBoundary = ''outer_'' @ showInt (nowOuter env);
          innerBoundary = ''inner_'' @ showInt (nowInner env + 1);
          buf = WriteString buf (''From: '' @ From email @ CRLF);
          buf = WriteString buf (''To: '' @ Join (To email) '', '' @ CRLF);
          buf = (if length (Cc email) > 0
                 then WriteString buf (''Cc: '' @ Join (Cc email) '', '' @ CRLF) else buf);
          buf = WriteString buf (''Subject: '' @ encodeSubject env (Subject email) @ CRLF);
          buf = WriteString buf (''Date: '' @ nowDate env @ CRLF);
          buf = WriteString buf (''Message-ID: <'' @ showInt (nowMessageID env) @ ''@'' @
                                 configHost env @ ''>'' @ CRLF);
          buf = writeCustomHeaders (Headers email) buf;
          buf = (if Priority email = PriorityHigh then
                   WriteString (WriteString buf (''X-Priority: 1'' @ CRLF)) (''Importance: high'' @ CRLF)
                 else if Priority email = PriorityLow then
                   WriteString (WriteString buf (''X-Priority: 5'' @ CRLF)) (''Importance: low'' @ CRLF)
                 else buf);
          buf = WriteString buf (''MIME-Version: 1.0'' @ CRLF);
          buf =
            (if length (Attachments email) > 0 then
               (let buf = WriteString buf (''Content-Type: multipart/mixed; boundary='' @ dquote @
                                           outerBoundary @ dquote @ CRLF);
                    buf = WriteString buf CRLF;
                    buf = WriteString buf (''--'' @ outerBoundary @ CRLF);
                    buf = WriteString buf (''Content-Type: multipart/alternative; boundary='' @
                                           dquote @ innerBoundary @ dquote @ CRLF);
                    buf = WriteString buf CRLF;
                    buf = (if TextBody email \<noteq> [] then
                             (let buf = WriteString buf (''--'' @ innerBoundary @ CRLF);
                                  buf = WriteString buf (''Content-Type: text/plain; charset=UTF-8'' @ CRLF);
                                  buf = WriteString buf CRLF;
                                  buf = WriteString buf (TextBody email)
                              in WriteString buf (CRLF @ CRLF))
                           else buf);
                    buf = (if HTMLBody email \<noteq> [] then
                             (let buf = WriteString buf (''--'' @ innerBoundary @ CRLF);
                                  buf = WriteString buf (''Content-Type: text/html; charset=UTF-8'' @ CRLF);
                                  buf = WriteString buf CRLF;
                                  buf = WriteString buf (HTMLBody email)
                              in WriteString buf (CRLF @ CRLF))
                           else buf);
                    buf = WriteString buf (''--'' @ innerBoundary @ ''--'' @ CRLF);
                    buf = WriteString buf CRLF;
                    buf = writeAttachments outerBoundary (Attachments email) buf
                in WriteString buf (''--'' @ outerBoundary @ ''--'' @ CRLF))
             else
               (let buf = WriteString buf (''Content-Type: multipart/alternative; boundary='' @
                                           dquote @ innerBoundary @ dquote @ CRLF);
                    buf = WriteString buf CRLF;
                    buf = (if TextBody email \<noteq> [] then
                             (let buf = WriteString buf (''--'' @ innerBoundary @ CRLF);
                                  buf = WriteString buf (''Content-Type: text/plain; charset=UTF-8'' @ CRLF);
                                  buf = WriteString buf CRLF;
                                  buf = WriteString buf (TextBody email)
                              in WriteString buf (CRLF @ CRLF))
                           else buf);
                    buf = (if HTMLBody email \<noteq> [] then
                             (let buf = WriteString buf (''--'' @ innerBoundary @ CRLF);
                                  buf = WriteString buf (''Content-Type: text/html; charset=UTF-8'' @ CRLF);
                                  buf = WriteString buf CRLF;
                                  buf = WriteString buf (HTMLBody email)
                              in WriteString buf (CRLF @ CRLF))
                           else buf)
                in WriteString buf (''--'' @ innerBoundary @ ''--'' @ CRLF)))
      in (buf, None))"

section \<open>Package infrastructure: the connection pool\<close>

text \<open>
  A connection (\<^verbatim>\<open>*smtp.Client\<close>) is known to the pool by its identity only. The
  buffered channel \<^verbatim>\<open>connections\<close> is the list of the connections it holds, oldest
  first, together with its capacity. \<open>terminated\<close> is a ghost field: the connections on
  which the pool has called \<^verbatim>\<open>Close\<close>, in order.
\<close>

type_synonym conn = nat

record ConnectionPool =
  connections :: "conn list"
  capacity :: nat
  poolClosed :: bool
  terminated :: "conn list"

text \<open>
  What one call of \<^verbatim>\<open>Get\<close> meets outside the pool: whether the \<^verbatim>\<open>select\<close> takes the
  case \<^verbatim>\<open>ctx.Done()\<close> (with the text of \<^verbatim>\<open>ctx.Err()\<close>), whether \<^verbatim>\<open>Noop\<close> succeeds on
  the connection received, and what \<^verbatim>\<open>createConnection\<close> answers if it is called. With
  no connection buffered and the context not done, a sequential caller waits out the
  30 seconds.
\<close>

record GetEnv =
  ctxDone :: "error option"
  noopErr :: "error option"
  createConnection :: "error + conn"

fun populate :: "nat \<Rightarrow> (nat \<Rightarrow> error + conn) \<Rightarrow> nat \<Rightarrow> ConnectionPool \<Rightarrow> error + ConnectionPool" where
  \<comment> \<open>the loop \<^verbatim>\<open>for i := 0; i < size; i++\<close> of \<^verbatim>\<open>NewConnectionPool\<close>, with \<open>k\<close> rounds to go\<close>
  "populate 0 create i pool = Inr pool"
| "populate (Suc k) create i pool =
     (case create i of
        Inl err \<Rightarrow> Inl (''failed to create connection: '' @ err)
      | Inr c \<Rightarrow> populate k create (i + 1) (pool\<lparr>connections := connections pool @ [c]\<rparr>))"

definition NewConnectionPool :: "(nat \<Rightarrow> error + conn) \<Rightarrow> int \<Rightarrow> error + ConnectionPool" where
  \<comment> \<open>\<open>create i\<close> is the answer of the \<open>i\<close>-th call of \<^verbatim>\<open>createConnection\<close>;
      \<^verbatim>\<open>make\<close> panics on a negative size\<close>
  "NewConnectionPool create poolSize =
     (if poolSize < 0 then Inl ''panic: makechan: size out of range''
      else populate (nat poolSize) create 0
             \<lparr>connections = [], capacity = nat poolSize, poolClosed = False, terminated = []\<rparr>)"

definition Get :: "GetEnv \<Rightarrow> ConnectionPool \<Rightarrow> (error + conn) \<times> ConnectionPool" where
  "Get env p =
     (if poolClosed p then (Inl ''pool is closed'', p)
      else (case ctxDone env of
              Some err \<Rightarrow> (Inl err, p)
            | None \<Rightarrow>
                (case connections p of
                   [] \<Rightarrow> (Inl ''timeout waiting for connection'', p)
                 | c # cs \<Rightarrow>
                     (case noopErr env of
                        Some err \<Rightarrow>
                          (let p = p\<lparr>connections := cs, terminated := terminated p @ [c]\<rparr>
                           in case createConnection env of
                                Inl err \<Rightarrow> (Inl (''failed to recreate connection: '' @ err), p)
                              | Inr newConn \<Rightarrow> (Inr newConn, p))
                      | None \<Rightarrow> (Inr c, p\<lparr>connections := cs\<rparr>)))))"

definition Put :: "conn \<Rightarrow> ConnectionPool \<Rightarrow> ConnectionPool" where
  "Put c p =
     (if poolClosed p then p\<lparr>terminated := terminated p @ [c]\<rparr>
      else if length (connections p) < capacity p then p\<lparr>connections := connections p @ [c]\<rparr>
      else p\<lparr>terminated := terminated p @ [c]\<rparr>)"

definition Close :: "ConnectionPool \<Rightarrow> ConnectionPool" where
  "Close p =
     (if poolClosed p then p
      else p\<lparr>poolClosed := True, connections := [],
             terminated := terminated p @ connections p\<rparr>)"

subsection \<open>Callers of the pool\<close>

text \<open>
  A caller's view: the pool together with the connections the callers hold, that is,
  those that \<^verbatim>\<open>Get\<close> has handed out and that have not been passed to \<^verbatim>\<open>Put\<close> since.
  \<^verbatim>\<open>Put\<close> accepts any connection, held or not.
\<close>

datatype poolOp = OpGet GetEnv | OpPut conn | OpClose

fun step :: "poolOp \<Rightarrow> ConnectionPool \<times> conn list \<Rightarrow> ConnectionPool \<times> conn list" where
  "step (OpGet env) (p, held) =
     (case Get env p of (Inr c, p1) \<Rightarrow> (p1, c # held) | (Inl err, p1) \<Rightarrow> (p1, held))"
| "step (OpPut c) (p, held) = (Put c p, remove1 c held)"
| "step OpClose (p, held) = (Close p, held)"

fun run :: "poolOp list \<Rightarrow> ConnectionPool \<times> conn list \<Rightarrow> ConnectionPool \<times> conn list" where
  "run [] st = st"
| "run (x # xs) st = run xs (step x st)"

definition outstanding :: "ConnectionPool \<times> conn list \<Rightarrow> nat" where
  \<comment> \<open>checked out plus buffered\<close>
  "outstanding st = length (snd st) + length (connections (fst st))"

fun returnsHeld :: "poolOp list \<Rightarrow> ConnectionPool \<times> conn list \<Rightarrow> bool" where
  \<comment> \<open>every \<^verbatim>\<open>Put\<close> of the sequence returns a connection that a caller holds at that moment\<close>
  "returnsHeld [] st = True"
| "returnsHeld (OpPut c # xs) st = (c \<in> set (snd st) \<and> returnsHeld xs (step (OpPut c) st))"
| "returnsHeld (x # xs) st = returnsHeld xs (step x st)"

definition healthy :: GetEnv where
  \<comment> \<open>the context is not done and the connection received answers \<^verbatim>\<open>NOOP\<close>\<close>
  "healthy = \<lparr>ctxDone = None, noopErr = None, createConnection = Inl ''unused''\<rparr>"

section \<open>Package infrastructure: the SMTP client\<close>

text \<open>
  The answers of the server to the commands sent over one connection; \<^verbatim>\<open>smtp.Client\<close>
  belongs to the standard library.
\<close>

record Session =
  mailReply :: "string \<Rightarrow> error option"
  rcptReply :: "string \<Rightarrow> error option"
  dataReply :: "error option"
  writeReply :: "string \<Rightarrow> error option"
  closeReply :: "error option"
  resetReply :: "error option"

fun rcptAll :: "Session \<Rightarrow> string list \<Rightarrow> error option" where
  \<comment> \<open>the loop \<^verbatim>\<open>for _, addr := range allRecipients\<close>\<close>
  "rcptAll conn [] = None"
| "rcptAll conn (addr # addrs) =
     (case rcptReply conn addr of
        Some err \<Rightarrow> Some (''RCPT TO '' @ addr @ '' failed: '' @ err)
      | None \<Rightarrow> rcptAll conn addrs)"

definition sendWithConnection :: "Session \<Rightarrow> Email \<Rightarrow> string \<Rightarrow> error option" where
  "sendWithConnection conn email message =
     (case mailReply conn (From email) of
        Some err \<Rightarrow> Some (''MAIL FROM failed: '' @ err)
      | None \<Rightarrow>
          (let allRecipients = (To email @ Cc email) @ Bcc email
           in case rcptAll conn allRecipients of
                Some err \<Rightarrow> Some err
              | None \<Rightarrow>
                  (case dataReply conn of
                     Some err \<Rightarrow> Some (''DATA failed: '' @ err)
                   | None \<Rightarrow>
                       (case writeReply conn message of
                          Some err \<Rightarrow> Some (''write failed: '' @ err)
                        | None \<Rightarrow>
                            (case closeReply conn of
                               Some err \<Rightarrow> Some (''close failed: '' @ err)
                             | None \<Rightarrow> resetReply conn)))))"

text \<open>
  \<^verbatim>\<open>Send\<close> registers \<^verbatim>\<open>defer c.pool.Put(conn)\<close> once \<^verbatim>\<open>Get\<close> has answered a connection:
  the deferred call runs when the function returns, whatever the return statement.
  \<open>SendBody\<close> is the part of \<^verbatim>\<open>Send\<close> after the \<^verbatim>\<open>defer\<close> statement.
\<close>

record SendEnv =
  getEnv :: GetEnv
  buildEnv :: BuildEnv
  session :: "conn \<Rightarrow> Session"

definition SendBody :: "SendEnv \<Rightarrow> conn \<Rightarrow> Email \<Rightarrow> error option" where
  "SendBody env c email =
     (case buildMessage (buildEnv env) email of
        (message, Some err) \<Rightarrow> Some (''failed to build message: '' @ err)
      | (message, None) \<Rightarrow>
          (case sendWithConnection (session env c) email message of
             Some err \<Rightarrow> Some (''failed to send: '' @ err)
           | None \<Rightarrow> None))"

definition Send :: "SendEnv \<Rightarrow> Email \<Rightarrow> ConnectionPool \<Rightarrow> error option \<times> ConnectionPool" where
  "Send env email pool =
     (case Get (getEnv env) pool of
        (Inl err, pool) \<Rightarrow> (Some (''failed to get connection: '' @ err), pool)
      | (Inr c, pool) \<Rightarrow>
          (let result = SendBody env c email;
               pool = Put c pool
           in (result, pool)))"

definition poolInv :: "ConnectionPool \<times> conn list \<Rightarrow> bool" where
  "poolInv st \<longleftrightarrow> outstanding st \<le> capacity (fst st)"

definition pairPool :: ConnectionPool where
  \<comment> \<open>a pool of size 2 as \<^verbatim>\<open>NewConnectionPool\<close> leaves it, holding the connections 0 and 1\<close>
  "pairPool = \<lparr>connections = [0, 1], capacity = 2, poolClosed = False, terminated = []\<rparr>"

definition plainEnv :: BuildEnv where
  "plainEnv =
     \<lparr>nowOuter = 41, nowInner = 41, nowDate = ''Mon, 02 Jan 2006 15:04:05 -0700'',
      nowMessageID = 43, encodeSubject = (\<lambda>s. s), configHost = ''smtp.example.org''\<rparr>"

definition refusingSession :: Session where
  \<comment> \<open>a server that accepts the sender and refuses every recipient\<close>
  "refusingSession =
     \<lparr>mailReply = (\<lambda>a. None), rcptReply = (\<lambda>a. Some ''550 no such user''), dataReply = None,
      writeReply = (\<lambda>m. None), closeReply = None, resetReply = None\<rparr>"

definition refusingEnv :: SendEnv where
  "refusingEnv = \<lparr>getEnv = healthy, buildEnv = plainEnv, session = (\<lambda>c. refusingSession)\<rparr>"

section \<open>The parts of a built message\<close>

text \<open>
  The message as the specification describes it: a block of header lines, then either a
  single \<^verbatim>\<open>multipart/alternative\<close> body or a \<^verbatim>\<open>multipart/mixed\<close> body whose first part
  is the alternative block and whose other parts are the attachments. The message is a
  list of entries, each followed by CRLF; an entry is a line that the builder writes, or
  a whole body copied as it is. These definitions follow the specification; the
  properties below compare them with \<open>buildMessage\<close>.
\<close>

definition outerBoundaryOf :: "BuildEnv \<Rightarrow> string" where
  "outerBoundaryOf env = ''outer_'' @ showInt (nowOuter env)"

definition innerBoundaryOf :: "BuildEnv \<Rightarrow> string" where
  "innerBoundaryOf env = ''inner_'' @ showInt (nowInner env + 1)"

definition terminate :: "string list \<Rightarrow> string" where
  \<comment> \<open>every entry followed by CRLF\<close>
  "terminate ls = concat (map (\<lambda>l. l @ CRLF) ls)"

definition priorityLines :: "int \<Rightarrow> string list" where
  "priorityLines p =
     (if p = PriorityHigh then [''X-Priority: 1'', ''Importance: high'']
      else if p = PriorityLow then [''X-Priority: 5'', ''Importance: low'']
      else [])"

definition headerLines :: "BuildEnv \<Rightarrow> Email \<Rightarrow> string list" where
  "headerLines env email =
     [''From: '' @ From email, ''To: '' @ Join (To email) '', ''] @
     (if Cc email = [] then [] else [''Cc: '' @ Join (Cc email) '', '']) @
     [''Subject: '' @ encodeSubject env (Subject email),
      ''Date: '' @ nowDate env,
      ''Message-ID: <'' @ showInt (nowMessageID env) @ ''@'' @ configHost env @ ''>''] @
     map (\<lambda>(k, v). k @ '': '' @ v) (Headers email) @
     priorityLines (Priority email) @
     [''MIME-Version: 1.0'']"

definition textLines :: "string \<Rightarrow> Email \<Rightarrow> string list" where
  "textLines inner email =
     (if TextBody email = [] then []
      else [''--'' @ inner, ''Content-Type: text/plain; charset=UTF-8'', [], TextBody email, []])"

definition htmlLines :: "string \<Rightarrow> Email \<Rightarrow> string list" where
  "htmlLines inner email =
     (if HTMLBody email = [] then []
      else [''--'' @ inner, ''Content-Type: text/html; charset=UTF-8'', [], HTMLBody email, []])"

definition alternativeLines :: "string \<Rightarrow> Email \<Rightarrow> string list" where
  \<comment> \<open>the \<^verbatim>\<open>multipart/alternative\<close> entity: its Content-Type header, the parts present, the close\<close>
  "alternativeLines inner email =
     [''Content-Type: multipart/alternative; boundary='' @ dquote @ inner @ dquote, []] @
     textLines inner email @ htmlLines inner email @ [''--'' @ inner @ ''--'']"

definition alternativeBlock :: "string \<Rightarrow> Email \<Rightarrow> string" where
  "alternativeBlock inner email = terminate (alternativeLines inner email)"

function lines76 :: "string \<Rightarrow> string list" where
  \<comment> \<open>a text cut into lines of 76 characters, the last one possibly shorter\<close>
  "lines76 s = (if s = [] then [] else take 76 s # lines76 (drop 76 s))"
  by pat_completeness auto
termination
  by (relation "measure length") auto

declare lines76.simps [simp del]

definition attachmentHeaderLines :: "string \<Rightarrow> Attachment \<Rightarrow> string list" where
  "attachmentHeaderLines outer att =
     [''--'' @ outer,
      ''Content-Type: '' @ ContentType att @ ''; name='' @ dquote @ Filename att @ dquote,
      ''Content-Transfer-Encoding: base64'',
      ''Content-Disposition: attachment; filename='' @ dquote @ Filename att @ dquote,
      []]"

definition attachmentLines :: "string \<Rightarrow> Attachment \<Rightarrow> string list" where
  "attachmentLines outer att =
     attachmentHeaderLines outer att @ lines76 (EncodeToString (Data att)) @ [[]]"

definition attachmentPart :: "string \<Rightarrow> Attachment \<Rightarrow> string" where
  "attachmentPart outer att = terminate (attachmentLines outer att)"

definition messageLines :: "BuildEnv \<Rightarrow> Email \<Rightarrow> string list" where
  "messageLines env email =
     headerLines env email @
     (if Attachments email = [] then alternativeLines (innerBoundaryOf env) email
      else [''Content-Type: multipart/mixed; boundary='' @ dquote @ outerBoundaryOf env @ dquote,
            [], ''--'' @ outerBoundaryOf env] @
           alternativeLines (innerBoundaryOf env) email @ [[]] @
           concat (map (attachmentLines (outerBoundaryOf env)) (Attachments email)) @
           [''--'' @ outerBoundaryOf env @ ''--''])"

subsection \<open>Reading a message back\<close>

fun crlfLinesFrom :: "string \<Rightarrow> string \<Rightarrow> string list" where
  \<comment> \<open>the lines of a text, cut at every CRLF; the first argument is the line being read\<close>
  "crlfLinesFrom cur [] = (if cur = [] then [] else [cur])"
| "crlfLinesFrom cur [c] = [cur @ [c]]"
| "crlfLinesFrom cur (c # d # s) =
     (if c = CR \<and> d = LF then cur # crlfLinesFrom [] s else crlfLinesFrom (cur @ [c]) (d # s))"

definition crlfLines :: "string \<Rightarrow> string list" where
  "crlfLines s = crlfLinesFrom [] s"

definition encodedBody :: "Attachment \<Rightarrow> string" where
  \<comment> \<open>what the encoding loop of \<^verbatim>\<open>buildMessage\<close> writes for one attachment\<close>
  "encodedBody att = writeEncoded (EncodeToString (Data att)) 0 []"

fun crlfClean :: "string \<Rightarrow> bool" where
  \<comment> \<open>every CR is followed by LF and every LF follows a CR: CRLF is the only line terminator\<close>
  "crlfClean [] = True"
| "crlfClean [c] = (c \<noteq> CR \<and> c \<noteq> LF)"
| "crlfClean (c # d # s) =
     (if c = CR then d = LF \<and> crlfClean s else c \<noteq> LF \<and> crlfClean (d # s))"

fun occurrences :: "string \<Rightarrow> string \<Rightarrow> nat" where
  \<comment> \<open>the number of positions of a text at which a pattern starts\<close>
  "occurrences p [] = 0"
| "occurrences p (c # s) = (if prefix p (c # s) then 1 else 0) + occurrences p s"

definition copiedTexts :: "BuildEnv \<Rightarrow> Email \<Rightarrow> string list" where
  \<comment> \<open>the texts from outside that the builder copies into the message as they are\<close>
  "copiedTexts env email =
     [From email] @ To email @ Cc email @
     [encodeSubject env (Subject email), nowDate env, configHost env] @
     concat (map (\<lambda>(k, v). [k, v]) (Headers email)) @
     [TextBody email, HTMLBody email] @
     concat (map (\<lambda>att. [ContentType att, Filename att]) (Attachments email))"

definition bodiesPresent :: "Email \<Rightarrow> nat" where
  "bodiesPresent email =
     (if TextBody email = [] then 0 else 1) + (if HTMLBody email = [] then 0 else 1)"

definition tinyAttachment :: Attachment where
  "tinyAttachment = \<lparr>Filename = ''a.bin'', ContentType = ''application/octet-stream'',
     Data = [1, 2, 3, 4]\<rparr>"

definition longAttachment :: Attachment where
  \<comment> \<open>58 bytes: 80 characters of base64, two lines\<close>
  "longAttachment = \<lparr>Filename = ''b.bin'', ContentType = ''application/octet-stream'',
     Data =
       [65, 65, 65, 65, 65, 65, 65, 65, 65, 65, 65, 65, 65, 65, 65, 65, 65, 65, 65, 65,
        65, 65, 65, 65, 65, 65, 65, 65, 65, 65, 65, 65, 65, 65, 65, 65, 65, 65,
        65, 65, 65, 65, 65, 65, 65, 65, 65, 65, 65, 65, 65, 65, 65, 65, 65, 65,
        65, 65]\<rparr>"

definition tokenChars :: "char list" where
  \<comment> \<open>the characters of which the boundary tokens and their delimiters are made\<close>
  "tokenChars = ''-_0123456789einortu''"

definition collidingEmail :: Email where
  \<comment> \<open>a valid email: a text body with a bare LF, an HTML body that quotes a delimiter\<close>
  "collidingEmail =
     EmailBuilder_HTMLBody ''<p>--inner_42--</p>''
       (EmailBuilder_TextBody (''one'' @ [LF] @ ''two'') sampleBuilder)"

section \<open>Properties of package retry\<close>

lemma showNat_single: "n < 10 \<Longrightarrow> showNat n = [digitChar n]"
  by (subst showNat.simps) simp

lemma invocations_append [simp]: "invocations (xs @ ys) = invocations xs + invocations ys"
  by (induction xs rule: invocations.induct) auto

lemma waits_append [simp]: "waits (xs @ ys) = waits xs @ waits ys"
  by (induction xs rule: waits.induct) auto

subsection \<open>Permanent errors\<close>

lemma permanent_not_retryable:
  "containsAny err permanentErrors \<Longrightarrow> \<not> containsAny err temporaryErrors \<Longrightarrow> \<not> IsRetryable err"
  by (simp add: IsRetryable_def)

lemma temporary_retryable: "containsAny err temporaryErrors \<Longrightarrow> IsRetryable err"
  by (simp add: IsRetryable_def)

lemma Do_loop_permanent:
  assumes "a \<le> MaxAttempts config" and "fn s = (Some err, s1)" and "\<not> IsRetryable err"
  shows "Do_loop config (counted fn) (logged wait) a lastErr (s, tr) =
           (Some (permanentError config a err), (s1, tr @ [Invoked (Some err)]))"
  using assms by (subst Do_loop.simps) (simp add: counted_def)

text \<open>
  Claim C2, as the code has it. \<^verbatim>\<open>IsRetryable\<close> looks for the transient indicators first,
  so an error text is permanent only when it holds one of the codes 550 to 554 and none
  of the transient indicators. For such an error the loop stops at the failing attempt,
  whichever attempt it is: the result is the permanent-error wrapping of that error and
  the trace gains the one invocation and nothing else (no wait, no further call). When
  the failing call is the first one, the operation has been invoked exactly once.
\<close>

theorem Do_aborts_on_permanent_error:
  assumes "1 \<le> a" and "a \<le> MaxAttempts config"
      and "fn s = (Some err, s')"
      and "containsAny err permanentErrors"
      and "\<not> containsAny err temporaryErrors"
  shows "Do_loop config (counted fn) (logged wait) a lastErr (s, tr) =
           (Some (permanentError config a err), (s', tr @ [Invoked (Some err)])) \<and>
         Do config (counted fn) (logged wait) (s, []) =
           (Some (permanentError config 1 err), (s', [Invoked (Some err)]))"
proof -
  have nr: "\<not> IsRetryable err"
    using assms(4,5) by (rule permanent_not_retryable)
  have one: "1 \<le> MaxAttempts config"
    using assms(1,2) by linarith
  have "Do_loop config (counted fn) (logged wait) a lastErr (s, tr) =
          (Some (permanentError config a err), (s', tr @ [Invoked (Some err)]))"
    using assms(2,3) nr by (rule Do_loop_permanent)
  moreover have "Do_loop config (counted fn) (logged wait) 1 None (s, []) =
          (Some (permanentError config 1 err), (s', [] @ [Invoked (Some err)]))"
    using one assms(3) nr by (rule Do_loop_permanent)
  ultimately show ?thesis
    by (simp add: Do_def)
qed

theorem Do_aborts_on_permanent_error_witness:
  "containsAny ''550 mailbox unavailable'' permanentErrors \<and>
   \<not> containsAny ''550 mailbox unavailable'' temporaryErrors \<and>
   Do DefaultConfig (counted (\<lambda>s::unit. (Some ''550 mailbox unavailable'', s)))
      (logged (\<lambda>d s. (None, s))) ((), []) =
     (Some ''permanent error (attempt 1/5): 550 mailbox unavailable'',
      ((), [Invoked (Some ''550 mailbox unavailable'')]))"
proof -
  have p: "containsAny ''550 mailbox unavailable'' permanentErrors"
    by code_simp
  have t: "\<not> containsAny ''550 mailbox unavailable'' temporaryErrors"
    by code_simp
  have m: "(1::int) \<le> MaxAttempts DefaultConfig"
    by (simp add: DefaultConfig_def)
  have msg: "permanentError DefaultConfig 1 ''550 mailbox unavailable'' =
      ''permanent error (attempt 1/5): 550 mailbox unavailable''"
    by (simp add: permanentError_def DefaultConfig_def showInt_def showNat_single digitChar_def)
  from Do_aborts_on_permanent_error [where a = 1 and config = DefaultConfig
      and fn = "\<lambda>s::unit. (Some ''550 mailbox unavailable'', s)" and s = "()" and s' = "()"
      and err = "''550 mailbox unavailable''" and wait = "\<lambda>d s. (None, s)"]
  show ?thesis using p t m msg by simp
qed

text \<open>
  The claim as the specification words it fails: the text \<open>550 timeout\<close> holds a permanent
  code, yet it also holds the transient indicator \<open>timeout\<close>, so \<^verbatim>\<open>IsRetryable\<close> answers
  true and the operation is invoked five times under the default configuration.
\<close>

theorem permanent_code_retried_counterexample:
  "containsAny ''550 timeout'' permanentErrors \<and>
   Do DefaultConfig (counted (\<lambda>s::unit. (Some ''550 timeout'', s))) (logged (\<lambda>d s. (None, s))) ((), []) =
     (Some ''max attempts reached (5): 550 timeout'',
      ((), [Invoked (Some ''550 timeout''), Waited (1 * second),
            Invoked (Some ''550 timeout''), Waited (2 * second),
            Invoked (Some ''550 timeout''), Waited (4 * second),
            Invoked (Some ''550 timeout''), Waited (8 * second),
            Invoked (Some ''550 timeout'')]))"
  by code_simp

subsection \<open>Exhausting the attempts\<close>





subsection \<open>Backoff\<close>


lemma toDuration_of_int [simp]: "toDuration (of_int k) = k"
  by (simp add: toDuration_def)








section \<open>Properties of validation\<close>

lemma validateTo_None_iff: "validateTo addrs = None \<longleftrightarrow> list_all isValidEmail addrs"
  by (induction addrs) auto

lemma isValidEmail_nonempty: "isValidEmail a \<Longrightarrow> a \<noteq> []"
proof -
  have "\<not> isValidEmail []" by code_simp
  then show "isValidEmail a \<Longrightarrow> a \<noteq> []" by auto
qed

lemma Validate_None_iff:
  "Validate e = None \<longleftrightarrow>
     isValidEmail (From e) \<and> To e \<noteq> [] \<and> list_all isValidEmail (To e) \<and> Subject e \<noteq> [] \<and>
     (TextBody e \<noteq> [] \<or> HTMLBody e \<noteq> [])"
proof (cases "validateTo (To e)")
  case None
  then have "list_all isValidEmail (To e)" by (simp add: validateTo_None_iff)
  then show ?thesis using None isValidEmail_nonempty [of "From e"]
    by (auto simp: Validate_def)
next
  case (Some err)
  then have "\<not> list_all isValidEmail (To e)" by (simp add: validateTo_None_iff [symmetric])
  then show ?thesis using Some by (simp add: Validate_def)
qed

text \<open>
  Claim C1 fails on the code for the Cc and Bcc lists: \<^verbatim>\<open>Validate\<close> checks the sender and
  every address of \<^verbatim>\<open>To\<close>, and never looks at \<^verbatim>\<open>Cc\<close> or \<^verbatim>\<open>Bcc\<close>. A builder holding
  the address \<open>not an address\<close> in \<^verbatim>\<open>Cc\<close> or in \<^verbatim>\<open>Bcc\<close> builds successfully, while
  the same address in \<^verbatim>\<open>To\<close> is refused.
\<close>

theorem Build_accepts_invalid_cc_bcc:
  "\<not> isValidEmail ''not an address'' \<and>
   EmailBuilder_Build (EmailBuilder_Cc [''not an address''] sampleBuilder) =
     Inr (EmailBuilder_Cc [''not an address''] sampleBuilder) \<and>
   EmailBuilder_Build (EmailBuilder_Bcc [''not an address''] sampleBuilder) =
     Inr (EmailBuilder_Bcc [''not an address''] sampleBuilder) \<and>
   EmailBuilder_Build (EmailBuilder_To [''not an address''] sampleBuilder) =
     Inl ''invalid to address: not an address''"
  by code_simp

section \<open>Properties of the email service\<close>

lemma Do_loop_invariant:
  assumes f: "\<And>s r s1. P s \<Longrightarrow> fn s = (r, s1) \<Longrightarrow> P s1"
      and w: "\<And>d s r s1. P s \<Longrightarrow> wait d s = (r, s1) \<Longrightarrow> P s1"
  shows "P s \<Longrightarrow> Do_loop config fn wait a lastErr s = (r, s') \<Longrightarrow> P s'"
proof (induction "nat (MaxAttempts config - a)" arbitrary: a lastErr s)
  case 0
  obtain r1 s1 where fs: "fn s = (r1, s1)" by (cases "fn s")
  have P1: "P s1" using f "0.prems"(1) fs .
  from "0.hyps" have "MaxAttempts config \<le> a" by simp
  then show ?case using "0.prems" fs P1
    by (subst (asm) Do_loop.simps) (auto split: if_splits option.splits)
next
  case (Suc n)
  then have lt: "a < MaxAttempts config" by simp
  obtain r1 s1 where fs: "fn s = (r1, s1)" by (cases "fn s")
  have P1: "P s1" using f Suc.prems(1) fs .
  obtain r2 s2 where ws: "wait (calculateBackoff a config) s1 = (r2, s2)"
    by (cases "wait (calculateBackoff a config) s1")
  have P2: "P s2" using w P1 ws .
  have n: "n = nat (MaxAttempts config - (a + 1))" using Suc.hyps(2) by simp
  show ?case
  proof (cases "\<exists>err. r1 = Some err \<and> IsRetryable err \<and> r2 = None")
    case True
    then obtain err where e: "r1 = Some err" "IsRetryable err" "r2 = None" by blast
    have "Do_loop config fn wait (a + 1) (Some err) s2 = (r, s')"
      using Suc.prems(2) lt fs ws e by (subst (asm) Do_loop.simps) simp
    then show ?thesis using Suc.hyps(1) [OF n P2] by simp
  next
    case False
    then show ?thesis using Suc.prems(2) lt fs ws P1 P2
      by (subst (asm) Do_loop.simps) (auto split: if_splits option.splits)
  qed
qed

lemma sendAttempt_inv:
  "attemptsInv e0 n0 st \<Longrightarrow> sendAttempt (countingSender sender) st = (r, st1) \<Longrightarrow>
   attemptsInv e0 n0 st1"
  by (cases st) (auto simp: attemptsInv_def sendAttempt_def countingSender_def Let_def Suc_diff_le
      split: prod.splits)

lemma besideEmail_inv:
  "attemptsInv e0 n0 st \<Longrightarrow> besideEmail (besideCount wait) d st = (r, st1) \<Longrightarrow>
   attemptsInv e0 n0 st1"
  by (cases st) (auto simp: attemptsInv_def besideEmail_def besideCount_def split: prod.splits)

lemma Do_attempts:
  assumes "Do config (sendAttempt (countingSender sender)) (besideEmail (besideCount wait)) (e0, s, n0)
             = (r, (e1, s1, n1))"
  shows "n0 \<le> n1 \<and> Attempts e1 = Attempts e0 + of_nat (n1 - n0) \<and> e1\<lparr>Attempts := Attempts e0\<rparr> = e0"
proof -
  have "attemptsInv e0 n0 (e0, s, n0)" by (simp add: attemptsInv_def)
  moreover have "Do_loop config (sendAttempt (countingSender sender)) (besideEmail (besideCount wait))
      1 None (e0, s, n0) = (r, (e1, s1, n1))"
    using assms by (simp add: Do_def)
  ultimately have "attemptsInv e0 n0 (e1, s1, n1)"
  proof (rule Do_loop_invariant [where P = "attemptsInv e0 n0", rotated 2])
    show "\<And>st r st1. attemptsInv e0 n0 st \<Longrightarrow>
        sendAttempt (countingSender sender) st = (r, st1) \<Longrightarrow> attemptsInv e0 n0 st1"
      by (rule sendAttempt_inv)
    show "\<And>d st r st1. attemptsInv e0 n0 st \<Longrightarrow>
        besideEmail (besideCount wait) d st = (r, st1) \<Longrightarrow> attemptsInv e0 n0 st1"
      by (rule besideEmail_inv)
  qed
  then show ?thesis by (simp add: attemptsInv_def)
qed

lemma SendEmail_once:
  assumes "SendEmail config (countingSender sender) (besideCount wait) email (s, n) = (r, email', (s', n'))"
  shows "n \<le> n' \<and> Attempts email' = Attempts email + of_nat (n' - n) \<and>
         (r = None \<longrightarrow> Status email' = StatusSent \<and> LastError email' = LastError email)"
proof (cases "Validate email")
  case (Some err)
  then show ?thesis using assms by (auto simp: SendEmail_def)
next
  case None
  obtain r1 e1 s1 n1 where d:
    "Do config (sendAttempt (countingSender sender)) (besideEmail (besideCount wait))
       (email\<lparr>Status := StatusSending\<rparr>, s, n) = (r1, (e1, s1, n1))"
    by (metis prod_cases4)
  from Do_attempts [OF d] have i: "n \<le> n1" "Attempts e1 = Attempts email + of_nat (n1 - n)"
    "e1\<lparr>Attempts := Attempts email\<rparr> = email\<lparr>Status := StatusSending\<rparr>"
    by simp_all
  from i(3) have "LastError (e1\<lparr>Attempts := Attempts email\<rparr>) = LastError (email\<lparr>Status := StatusSending\<rparr>)"
    by simp
  then have l: "LastError e1 = LastError email" by simp
  show ?thesis using assms None d i(1,2) l
    by (cases r1) (auto simp: SendEmail_def Let_def)
qed

text \<open>
  Claim C10. Take two successive calls of \<^verbatim>\<open>SendEmail\<close> on the same email, the second
  starting from the email and the sender as the first left them; \<open>n\<close>, \<open>n'\<close> and \<open>n''\<close>
  count the calls of the sender before, between and after. Each call adds to
  \<^verbatim>\<open>Attempts\<close> exactly the number of sender calls it made (in 64-bit arithmetic), so
  the second call continues from the first call's count. A call that succeeds sets the
  status to sent and leaves \<^verbatim>\<open>LastError\<close> as it found it, so the text of an earlier
  failure stays on the email.
\<close>

theorem SendEmail_never_resets_Attempts_or_LastError:
  assumes "SendEmail config (countingSender sender) (besideCount wait) email (s, n) =
             (r, email', (s', n'))"
      and "SendEmail config2 (countingSender sender) (besideCount wait) email' (s', n') =
             (r2, email'', (s'', n''))"
  shows "n \<le> n' \<and> n' \<le> n'' \<and>
         Attempts email' = Attempts email + of_nat (n' - n) \<and>
         Attempts email'' = Attempts email + of_nat (n'' - n) \<and>
         (r = None \<longrightarrow> Status email' = StatusSent \<and> LastError email' = LastError email) \<and>
         (r2 = None \<longrightarrow> Status email'' = StatusSent \<and> LastError email'' = LastError email')"
proof -
  note a = SendEmail_once [OF assms(1)] and b = SendEmail_once [OF assms(2)]
  have "n'' - n = (n'' - n') + (n' - n)" using a b by simp
  then have "Attempts email'' = Attempts email + of_nat (n'' - n)"
    using a b by (simp add: add.assoc add.commute)
  then show ?thesis using a b by simp
qed

theorem SendEmail_never_resets_Attempts_or_LastError_witness:
  "(\<exists>e1 e2.
      SendEmail DefaultConfig (countingSender flakySender) (besideCount neverDone) sampleBuilder (0, 0) =
        (Some ''failed to send email: permanent error (attempt 1/5): 550 mailbox unavailable'',
         e1, (1, 1)) \<and>
      SendEmail DefaultConfig (countingSender flakySender) (besideCount neverDone) e1 (1, 1) =
        (None, e2, (2, 2)) \<and>
      Attempts sampleBuilder = 0 \<and> Attempts e1 = 1 \<and> Attempts e2 = 2 \<and>
      Status e2 = StatusSent \<and>
      LastError e2 = ''permanent error (attempt 1/5): 550 mailbox unavailable'')"
proof -
  define e1 where "e1 = sampleBuilder\<lparr>Status := StatusFailed, Attempts := 1,
    LastError := ''permanent error (attempt 1/5): 550 mailbox unavailable''\<rparr>"
  define e2 where "e2 = e1\<lparr>Status := StatusSent, Attempts := 2\<rparr>"
  have c1: "SendEmail DefaultConfig (countingSender flakySender) (besideCount neverDone) sampleBuilder (0, 0) =
        (Some ''failed to send email: permanent error (attempt 1/5): 550 mailbox unavailable'',
         e1, (1, 1))"
    unfolding e1_def by code_simp
  have c2: "SendEmail DefaultConfig (countingSender flakySender) (besideCount neverDone) e1 (1, 1) =
        (None, e2, (2, 2))"
    unfolding e1_def e2_def by code_simp
  have l: "LastError e1 = ''permanent error (attempt 1/5): 550 mailbox unavailable''"
    by (simp add: e1_def)
  have z: "Attempts sampleBuilder = 0"
    by code_simp
  from SendEmail_never_resets_Attempts_or_LastError [OF c1 c2]
  show ?thesis using c1 c2 l z by (intro exI [of _ e1] exI [of _ e2]) simp
qed

section \<open>Properties of the connection pool\<close>

lemma populate_ok:
  "populate k create i p = Inr q \<Longrightarrow>
   length (connections q) = length (connections p) + k \<and> capacity q = capacity p \<and>
   poolClosed q = poolClosed p"
  by (induction k arbitrary: i p) (auto split: sum.splits)

lemma NewConnectionPool_ok:
  "NewConnectionPool create n = Inr p \<Longrightarrow>
   0 \<le> n \<and> length (connections p) = nat n \<and> capacity p = nat n \<and> \<not> poolClosed p"
  by (auto simp: NewConnectionPool_def split: if_splits dest!: populate_ok)

lemma step_capacity [simp]: "capacity (fst (step x st)) = capacity (fst st)"
  by (cases x; cases st)
     (auto simp: Get_def Put_def Close_def Let_def split: option.splits list.splits sum.splits)

lemma step_Get_inv: "poolInv st \<Longrightarrow> poolInv (step (OpGet env) st)"
  by (cases st)
     (auto simp: poolInv_def outstanding_def Get_def Let_def split: option.splits list.splits sum.splits)

lemma step_Close_inv: "poolInv st \<Longrightarrow> poolInv (step OpClose st)"
  by (cases st) (auto simp: poolInv_def outstanding_def Close_def)

lemma step_Put_inv: "poolInv st \<Longrightarrow> c \<in> set (snd st) \<Longrightarrow> poolInv (step (OpPut c) st)"
  by (cases st) (auto simp: poolInv_def outstanding_def Put_def length_remove1)

lemma run_inv: "poolInv st \<Longrightarrow> returnsHeld xs st \<Longrightarrow> poolInv (run xs st)"
proof (induction xs arbitrary: st)
  case Nil
  then show ?case by simp
next
  case (Cons x xs)
  show ?case
  proof (cases x)
    case (OpGet env)
    then show ?thesis using Cons step_Get_inv [of st env] by simp
  next
    case (OpPut c)
    then show ?thesis using Cons step_Put_inv [of st c] by simp
  next
    case OpClose
    then show ?thesis using Cons step_Close_inv [of st] by simp
  qed
qed

lemma run_capacity [simp]: "capacity (fst (run xs st)) = capacity (fst st)"
  by (induction xs arbitrary: st) auto

lemma step_closed: "poolClosed (fst st) \<Longrightarrow> poolClosed (fst (step x st))"
  by (cases x; cases st) (auto simp: Get_def Put_def Close_def)

lemma run_closed: "poolClosed (fst st) \<Longrightarrow> poolClosed (fst (run xs st))"
  by (induction xs arbitrary: st) (auto simp: step_closed)

lemma run_append: "run (xs @ ys) st = run ys (run xs st)"
  by (induction xs arbitrary: st) auto

lemma Close_closed: "poolClosed (fst (step OpClose st))"
  by (cases st) (simp add: Close_def)

lemma Get_closed: "poolClosed p \<Longrightarrow> Get env p = (Inl ''pool is closed'', p)"
  by (simp add: Get_def)

text \<open>
  Claim C8, as the code has it. Take a pool that \<^verbatim>\<open>NewConnectionPool\<close> created with size
  \<open>n\<close> and any sequence of \<^verbatim>\<open>Get\<close>, \<^verbatim>\<open>Put\<close> and \<^verbatim>\<open>Close\<close> operations on it, run one
  after the other. If every \<^verbatim>\<open>Put\<close> of the sequence returns a connection that a caller
  holds at that moment, the connections checked out plus those buffered never exceed
  \<open>n\<close>. And whatever the sequence, once it contains a \<^verbatim>\<open>Close\<close>, a \<^verbatim>\<open>Get\<close> after it
  answers the pool-closed error before it reaches the \<^verbatim>\<open>select\<close>: the answer is the
  same whatever the context, the buffer and the connections do, and the pool is unchanged.
\<close>

theorem pool_capacity_and_closed_Get:
  assumes "NewConnectionPool create n = Inr p0"
  shows "(returnsHeld ops (p0, []) \<longrightarrow> outstanding (run ops (p0, [])) \<le> nat n) \<and>
         (\<forall>before after env. ops = before @ OpClose # after \<longrightarrow>
            Get env (fst (run ops (p0, []))) = (Inl ''pool is closed'', fst (run ops (p0, []))))"
proof -
  from NewConnectionPool_ok [OF assms]
  have p0: "length (connections p0) = nat n" "capacity p0 = nat n" by simp_all
  then have "poolInv (p0, [])" by (simp add: poolInv_def outstanding_def)
  then have a: "returnsHeld ops (p0, []) \<Longrightarrow> outstanding (run ops (p0, [])) \<le> nat n"
    using run_inv [of "(p0, [])" ops] p0 by (simp add: poolInv_def)
  have b: "poolClosed (fst (run ops (p0, [])))" if "ops = before @ OpClose # after" for before after
    unfolding that run_append using run_closed [OF Close_closed] by simp
  show ?thesis using a b Get_closed by blast
qed

theorem pool_capacity_and_closed_Get_witness:
  "NewConnectionPool (\<lambda>i. Inr i) 2 = Inr pairPool \<and>
   returnsHeld [OpGet healthy, OpGet healthy, OpPut 0, OpClose, OpPut 1] (pairPool, []) \<and>
   outstanding (run [OpGet healthy, OpGet healthy, OpPut 0, OpClose, OpPut 1] (pairPool, [])) \<le> 2 \<and>
   Get healthy (fst (run [OpGet healthy, OpGet healthy, OpPut 0, OpClose, OpPut 1] (pairPool, []))) =
     (Inl ''pool is closed'',
      \<lparr>connections = [], capacity = 2, poolClosed = True, terminated = [0, 1]\<rparr>)"
proof -
  define ops where "ops = [OpGet healthy, OpGet healthy, OpPut 0, OpClose, OpPut 1]"
  have n: "NewConnectionPool (\<lambda>i. Inr i) 2 = Inr pairPool"
    by code_simp
  have h: "returnsHeld ops (pairPool, [])"
    unfolding ops_def by code_simp
  have r: "fst (run ops (pairPool, [])) =
      \<lparr>connections = [], capacity = 2, poolClosed = True, terminated = [0, 1]\<rparr>"
    unfolding ops_def by code_simp
  have s: "ops = [OpGet healthy, OpGet healthy, OpPut 0] @ OpClose # [OpPut 1]"
    by (simp add: ops_def)
  note t = pool_capacity_and_closed_Get [OF n, of ops]
  from t h have a: "outstanding (run ops (pairPool, [])) \<le> nat 2"
    by blast
  from t s have b: "Get healthy (fst (run ops (pairPool, []))) =
      (Inl ''pool is closed'', fst (run ops (pairPool, [])))"
    by blast
  have "NewConnectionPool (\<lambda>i. Inr i) 2 = Inr pairPool \<and>
   returnsHeld ops (pairPool, []) \<and> outstanding (run ops (pairPool, [])) \<le> 2 \<and>
   Get healthy (fst (run ops (pairPool, []))) =
     (Inl ''pool is closed'',
      \<lparr>connections = [], capacity = 2, poolClosed = True, terminated = [0, 1]\<rparr>)"
    using n h a b unfolding r by simp
  then show ?thesis unfolding ops_def .
qed

text \<open>
  The claim as the specification words it fails: \<^verbatim>\<open>Put\<close> buffers whatever connection
  it is given while the channel has room. On a pool of size 2, two callers take the two
  connections and the first returns its connection twice: the buffer then holds two
  entries while the second caller still holds a connection, three outstanding in all.
\<close>

theorem pool_capacity_counterexample:
  "NewConnectionPool (\<lambda>i. Inr i) 2 = Inr pairPool \<and>
   run [OpGet healthy, OpGet healthy, OpPut 0, OpPut 0] (pairPool, []) =
     (\<lparr>connections = [0, 0], capacity = 2, poolClosed = False, terminated = []\<rparr>, [1]) \<and>
   outstanding (run [OpGet healthy, OpGet healthy, OpPut 0, OpPut 0] (pairPool, [])) = 3"
  by code_simp

section \<open>Properties of the SMTP client\<close>

lemma Put_keeps_or_terminates:
  "last (connections (Put c p)) = c \<and> connections (Put c p) \<noteq> [] \<or>
   last (terminated (Put c p)) = c \<and> terminated (Put c p) \<noteq> []"
  by (simp add: Put_def)

text \<open>
  Claim C9. Whenever \<^verbatim>\<open>Get\<close> answers a connection, \<^verbatim>\<open>Send\<close> ends with the pool that
  \<^verbatim>\<open>Put\<close> of that connection leaves, whatever the rest of \<^verbatim>\<open>Send\<close> answers (a failure to
  build, a failure of MAIL FROM, RCPT TO, DATA, the write, its close or RESET, or
  success); so the connection is then the newest entry of the buffer or, on a closed or
  full pool, the last connection that the pool has terminated.
\<close>

theorem Send_always_returns_connection:
  assumes "Get (getEnv env) pool = (Inr c, pool1)"
  shows "Send env email pool = (SendBody env c email, Put c pool1) \<and>
         (last (connections (snd (Send env email pool))) = c \<and>
            connections (snd (Send env email pool)) \<noteq> [] \<or>
          last (terminated (snd (Send env email pool))) = c \<and>
            terminated (snd (Send env email pool)) \<noteq> [])"
proof -
  have "Send env email pool = (SendBody env c email, Put c pool1)"
    using assms by (simp add: Send_def)
  then show ?thesis using Put_keeps_or_terminates [of c pool1] by simp
qed

theorem Send_always_returns_connection_witness:
  "Get (getEnv refusingEnv) pairPool = (Inr 0, pairPool\<lparr>connections := [1]\<rparr>) \<and>
   Send refusingEnv sampleBuilder pairPool =
     (Some ''failed to send: RCPT TO bob@example.org failed: 550 no such user'',
      pairPool\<lparr>connections := [1, 0]\<rparr>)"
proof -
  have g: "Get (getEnv refusingEnv) pairPool = (Inr 0, pairPool\<lparr>connections := [1]\<rparr>)"
    by code_simp
  have b: "SendBody refusingEnv 0 sampleBuilder =
      Some ''failed to send: RCPT TO bob@example.org failed: 550 no such user''"
    by code_simp
  have p: "Put 0 (pairPool\<lparr>connections := [1]\<rparr>) = pairPool\<lparr>connections := [1, 0]\<rparr>"
    by code_simp
  from Send_always_returns_connection [OF g, of sampleBuilder]
  show ?thesis using g b p by simp
qed

section \<open>Properties of the message builder\<close>

subsection \<open>Base64\<close>

lemma distinct_encodeStd: "distinct encodeStd"
  by (simp add: encodeStd_def)

lemma length_encodeStd: "length encodeStd = 64"
  by (simp add: encodeStd_def)

lemma decChar_encChar: "i < 64 \<Longrightarrow> decChar (encChar i) = Some i"
  unfolding decChar_def encChar_def
  using map_of_zip_nth [of encodeStd "[0..<64]" i] distinct_encodeStd length_encodeStd
  by simp

lemma encChar_in: "i < 64 \<Longrightarrow> encChar i \<in> set encodeStd"
  by (simp add: encChar_def length_encodeStd)

lemma pad_notin: "CHR ''='' \<notin> set encodeStd"
  by (simp add: encodeStd_def)

lemma encChar_not_pad: "i < 64 \<Longrightarrow> encChar i \<noteq> CHR ''=''"
  using encChar_in pad_notin by metis

lemma byte_bound: "unat (a :: byte) < 256"
  using unsigned_less [of a, where ?'a = nat] by simp


lemma sextets_recombine:
  "(v::nat) div 262144 mod 64 * 262144 + v div 4096 mod 64 * 4096 + v div 64 mod 64 * 64 + v mod 64
     = v mod 16777216"
proof -
  have a: "v mod 4096 = 64 * (v div 64 mod 64) + v mod 64"
    using mod_mult2_eq [of v 64 64] by simp
  have b: "v mod 262144 = 4096 * (v div 4096 mod 64) + v mod 4096"
    using mod_mult2_eq [of v 4096 64] by simp
  have c: "v mod 16777216 = 262144 * (v div 262144 mod 64) + v mod 262144"
    using mod_mult2_eq [of v 262144 64] by simp
  show ?thesis unfolding c b a by simp
qed

lemma three_bytes:
  assumes "a < 256" "b < 256" "c < (256::nat)"
  defines "v \<equiv> a * 65536 + b * 256 + c"
  shows "v < 16777216" "v div 65536 = a" "v div 256 mod 256 = b" "v mod 256 = c"
proof -
  show "v < 16777216" using assms by simp
  have "v = a * 65536 + (b * 256 + c)" by (simp add: v_def)
  moreover have "b * 256 + c < 65536" using assms by simp
  ultimately show "v div 65536 = a" by simp
  have e: "v = (a * 256 + b) * 256 + c" by (simp add: v_def)
  then have "v div 256 = a * 256 + b" using assms(3) by simp
  then show "v div 256 mod 256 = b" using assms(2) by simp
  have "v mod 256 = c mod 256" unfolding e by (simp only: mod_mult_self3)
  then show "v mod 256 = c" using assms(3) by simp
qed

lemma decode_group:
  fixes a b c :: byte
  defines "v \<equiv> unat a * 65536 + unat b * 256 + unat c"
  defines "w \<equiv> v div 262144 mod 64 * 262144 + v div 4096 mod 64 * 4096 + v div 64 mod 64 * 64 + v mod 64"
  shows "(of_nat (w div 65536) :: byte) = a" "(of_nat (w div 256 mod 256) :: byte) = b"
    "(of_nat (w mod 256) :: byte) = c"
proof -
  note t = three_bytes [OF byte_bound [of a] byte_bound [of b] byte_bound [of c]]
  have "w = v" unfolding w_def sextets_recombine using t(1) by (simp add: v_def)
  then show "(of_nat (w div 65536) :: byte) = a" "(of_nat (w div 256 mod 256) :: byte) = b"
    "(of_nat (w mod 256) :: byte) = c"
    using t(2,3,4) by (simp_all add: v_def)
qed

lemma decode_group2:
  fixes a b :: byte
  defines "v \<equiv> unat a * 65536 + unat b * 256"
  defines "w \<equiv> v div 262144 mod 64 * 262144 + v div 4096 mod 64 * 4096 + v div 64 mod 64 * 64"
  shows "(of_nat (w div 65536) :: byte) = a" "(of_nat (w div 256 mod 256) :: byte) = b"
proof -
  have z: "(0::nat) < 256" by simp
  note t = three_bytes [OF byte_bound [of a] byte_bound [of b] z]
  have "v = (unat a * 1024 + unat b * 4) * 64" by (simp add: v_def)
  then have m: "v mod 64 = 0" by simp
  have "w + v mod 64 = v" unfolding w_def sextets_recombine using t(1) by (simp add: v_def)
  then have "w = v" using m by simp
  then show "(of_nat (w div 65536) :: byte) = a" "(of_nat (w div 256 mod 256) :: byte) = b"
    using t(2,3) by (simp_all add: v_def)
qed

lemma decode_group1:
  fixes a :: byte
  defines "v \<equiv> unat a * 65536"
  defines "w \<equiv> v div 262144 mod 64 * 262144 + v div 4096 mod 64 * 4096"
  shows "(of_nat (w div 65536) :: byte) = a"
proof -
  have z: "(0::nat) < 256" by simp
  note t = three_bytes [OF byte_bound [of a] z z]
  have e: "v = (unat a * 16) * 4096" by (simp add: v_def)
  then have m: "v mod 4096 = 0" by simp
  have "v mod 4096 = 64 * (v div 64 mod 64) + v mod 64"
    using mod_mult2_eq [of v 64 64] by simp
  then have m2: "v div 64 mod 64 = 0" "v mod 64 = 0" using m by simp_all
  have "w + v div 64 mod 64 * 64 + v mod 64 = v"
    unfolding w_def using sextets_recombine [of v] t(1) by (simp add: v_def)
  then have "w = v" using m2 by simp
  then show ?thesis using t(2) by (simp add: v_def)
qed


lemma DecodeString_EncodeToString: "DecodeString (EncodeToString src) = Some src"
proof (induction src rule: EncodeToString.induct)
  case (1 a b c src)
  then show ?case
    by (simp add: Let_def decChar_encChar encChar_not_pad decode_group)
next
  case (2 a b)
  define s0 where "s0 = (unat a * 65536 + unat b * 256) div 262144 mod 64"
  define s1 where "s1 = (unat a * 65536 + unat b * 256) div 4096 mod 64"
  define s2 where "s2 = (unat a * 65536 + unat b * 256) div 64 mod 64"
  have lt: "s0 < 64" "s1 < 64" "s2 < 64"
    by (simp_all add: s0_def s1_def s2_def)
  have enc: "EncodeToString [a, b] = [encChar s0, encChar s1, encChar s2, CHR ''='']"
    by (simp only: EncodeToString.simps Let_def s0_def s1_def s2_def)
  have dec: "DecodeString [encChar s0, encChar s1, encChar s2, CHR ''=''] =
      Some [of_nat ((s0 * 262144 + s1 * 4096 + s2 * 64) div 65536),
            of_nat ((s0 * 262144 + s1 * 4096 + s2 * 64) div 256 mod 256)]"
    using lt by (simp add: decChar_encChar encChar_not_pad Let_def)
  have "(of_nat ((s0 * 262144 + s1 * 4096 + s2 * 64) div 65536) :: byte) = a"
    and "(of_nat ((s0 * 262144 + s1 * 4096 + s2 * 64) div 256 mod 256) :: byte) = b"
    unfolding s0_def s1_def s2_def by (rule decode_group2)+
  then show ?case unfolding enc dec by simp
next
  case (3 a)
  define s0 where "s0 = (unat a * 65536) div 262144 mod 64"
  define s1 where "s1 = (unat a * 65536) div 4096 mod 64"
  have lt: "s0 < 64" "s1 < 64"
    by (simp_all add: s0_def s1_def)
  have enc: "EncodeToString [a] = [encChar s0, encChar s1, CHR ''='', CHR ''='']"
    by (simp only: EncodeToString.simps Let_def s0_def s1_def)
  have dec: "DecodeString [encChar s0, encChar s1, CHR ''='', CHR ''=''] =
      Some [of_nat ((s0 * 262144 + s1 * 4096) div 65536)]"
    using lt by (simp add: decChar_encChar encChar_not_pad Let_def)
  have "(of_nat ((s0 * 262144 + s1 * 4096) div 65536) :: byte) = a"
    unfolding s0_def s1_def by (rule decode_group1)
  then show ?case unfolding enc dec by simp
next
  case 4
  show ?case by simp
qed

subsection \<open>The loops of the builder\<close>

lemma writeCustomHeaders_eq:
  "writeCustomHeaders hs buf = buf @ terminate (map (\<lambda>(k, v). k @ '': '' @ v) hs)"
  by (induction hs arbitrary: buf) (auto simp: WriteString_def terminate_def)

lemma take_clip:
  "i < length encoded \<Longrightarrow>
   take ((if i + 76 > length encoded then length encoded else i + 76) - i) (drop i encoded) =
   take 76 (drop i encoded)"
  by simp

lemma writeEncoded_step:
  "i < length encoded \<Longrightarrow>
   writeEncoded encoded i buf = writeEncoded encoded (i + 76) (buf @ take 76 (drop i encoded) @ CRLF)"
  by (subst writeEncoded.simps) (simp only: Let_def WriteString_def take_clip if_True append_assoc)

lemma writeEncoded_stop: "\<not> i < length encoded \<Longrightarrow> writeEncoded encoded i buf = buf"
  by (subst writeEncoded.simps) simp

lemma lines76_step: "s \<noteq> [] \<Longrightarrow> lines76 s = take 76 s # lines76 (drop 76 s)"
  by (subst lines76.simps) simp

lemma lines76_Nil [simp]: "lines76 [] = []"
  by (subst lines76.simps) simp

lemma writeEncoded_eq:
  "writeEncoded encoded i buf = buf @ terminate (lines76 (drop i encoded))"
proof (induction "length encoded - i" arbitrary: i buf rule: less_induct)
  case less
  show ?case
  proof (cases "i < length encoded")
    case False
    then show ?thesis by (simp add: writeEncoded_stop terminate_def)
  next
    case True
    have "writeEncoded encoded (i + 76) (buf @ take 76 (drop i encoded) @ CRLF) =
        (buf @ take 76 (drop i encoded) @ CRLF) @ terminate (lines76 (drop (i + 76) encoded))"
      using True by (intro less) simp
    moreover have "lines76 (drop i encoded) =
        take 76 (drop i encoded) # lines76 (drop (i + 76) encoded)"
      using True by (subst lines76_step) (simp_all add: add.commute)
    ultimately show ?thesis using True by (simp add: writeEncoded_step terminate_def)
  qed
qed

lemma terminate_append [simp]: "terminate (xs @ ys) = terminate xs @ terminate ys"
  by (simp add: terminate_def)

lemma terminate_Cons: "terminate (l # ls) = l @ CRLF @ terminate ls"
  by (simp add: terminate_def)

lemma terminate_Nil [simp]: "terminate [] = []"
  by (simp add: terminate_def)

lemma attachmentPart_eq:
  "attachmentPart outer att =
     terminate (attachmentHeaderLines outer att) @ encodedBody att @ CRLF"
  by (simp add: attachmentPart_def attachmentLines_def encodedBody_def writeEncoded_eq terminate_Cons)

lemma writeAttachments_eq:
  "writeAttachments outer atts buf = buf @ concat (map (attachmentPart outer) atts)"
proof (induction atts arbitrary: buf)
  case Nil
  show ?case by simp
next
  case (Cons att atts)
  have "writeAttachments outer (att # atts) buf =
      writeAttachments outer atts (buf @ attachmentPart outer att)"
    by (simp add: WriteString_def Let_def attachmentPart_eq attachmentHeaderLines_def
        terminate_Cons encodedBody_def writeEncoded_eq)
  then show ?case by (simp add: Cons)
qed

lemma concat_attachmentPart:
  "concat (map (attachmentPart outer) atts) = terminate (concat (map (attachmentLines outer) atts))"
  by (induction atts) (simp_all add: attachmentPart_def)

lemma EncodeToString_alphabet: "set (EncodeToString src) \<subseteq> insert (CHR ''='') (set encodeStd)"
  by (induction src rule: EncodeToString.induct) (auto simp: Let_def encChar_in)

lemma CR_not_base64: "CR \<notin> insert (CHR ''='') (set encodeStd)"
  by (simp add: CR_def encodeStd_def)

lemma LF_not_base64: "LF \<notin> insert (CHR ''='') (set encodeStd)"
  by (simp add: LF_def encodeStd_def)

lemma concat_lines76: "concat (lines76 s) = s"
proof (induction "length s" arbitrary: s rule: less_induct)
  case less
  show ?case
  proof (cases "s = []")
    case True
    then show ?thesis by simp
  next
    case False
    then have "concat (lines76 (drop 76 s)) = drop 76 s" by (intro less) simp
    then show ?thesis using False by (simp add: lines76_step)
  qed
qed

lemma lines76_props: "l \<in> set (lines76 s) \<Longrightarrow> length l \<le> 76 \<and> l \<noteq> [] \<and> set l \<subseteq> set s"
proof (induction "length s" arbitrary: s rule: less_induct)
  case less
  show ?case
  proof (cases "s = []")
    case True
    then show ?thesis using less.prems by simp
  next
    case False
    then have *: "l \<in> set (lines76 (drop 76 s)) \<Longrightarrow>
        length l \<le> 76 \<and> l \<noteq> [] \<and> set l \<subseteq> set (drop 76 s)"
      by (intro less) simp_all
    have "l = take 76 s \<or> l \<in> set (lines76 (drop 76 s))"
      using less.prems False by (simp add: lines76_step)
    then show ?thesis
    proof
      assume "l = take 76 s"
      then show ?thesis using False by (auto dest: in_set_takeD)
    next
      assume "l \<in> set (lines76 (drop 76 s))"
      then show ?thesis using * by (auto dest: in_set_dropD)
    qed
  qed
qed

lemma crlfLinesFrom_line:
  "CR \<notin> set l \<Longrightarrow> crlfLinesFrom cur (l @ CRLF @ rest) = (cur @ l) # crlfLinesFrom [] rest"
proof (induction l arbitrary: cur)
  case Nil
  show ?case by (simp add: CRLF_def)
next
  case (Cons c l)
  obtain d s where ds: "l @ CRLF @ rest = d # s"
    by (cases "l @ CRLF @ rest") (simp_all add: CRLF_def)
  have "c \<noteq> CR" using Cons.prems by auto
  then have "crlfLinesFrom cur ((c # l) @ CRLF @ rest) = crlfLinesFrom (cur @ [c]) (l @ CRLF @ rest)"
    using ds by simp
  then show ?case using Cons by simp
qed


lemma crlfLines_terminate:
  "\<forall>l \<in> set ls. CR \<notin> set l \<Longrightarrow> crlfLinesFrom [] (terminate ls) = ls"
  by (induction ls) (simp_all add: terminate_Cons crlfLinesFrom_line)

subsection \<open>The structure of the message\<close>

lemma buildMessage_headers:
  "writeCustomHeaders (Headers email)
     (''From: '' @ From email @ CRLF @ ''To: '' @ Join (To email) '', '' @ CRLF @
      (if Cc email = [] then [] else ''Cc: '' @ Join (Cc email) '', '' @ CRLF) @
      ''Subject: '' @ encodeSubject env (Subject email) @ CRLF @
      ''Date: '' @ nowDate env @ CRLF @
      ''Message-ID: <'' @ showInt (nowMessageID env) @ ''@'' @ configHost env @ ''>'' @ CRLF) @
   terminate (priorityLines (Priority email)) @ ''MIME-Version: 1.0'' @ CRLF =
   terminate (headerLines env email)"
  by (simp add: headerLines_def writeCustomHeaders_eq terminate_Cons)

lemma alternativeBlock_eq:
  "alternativeBlock inner email =
     ''Content-Type: multipart/alternative; boundary='' @ dquote @ inner @ dquote @ CRLF @ CRLF @
     (if TextBody email = [] then []
      else ''--'' @ inner @ CRLF @ ''Content-Type: text/plain; charset=UTF-8'' @ CRLF @ CRLF @
           TextBody email @ CRLF @ CRLF) @
     (if HTMLBody email = [] then []
      else ''--'' @ inner @ CRLF @ ''Content-Type: text/html; charset=UTF-8'' @ CRLF @ CRLF @
           HTMLBody email @ CRLF @ CRLF) @
     ''--'' @ inner @ ''--'' @ CRLF"
  by (simp add: alternativeBlock_def alternativeLines_def textLines_def htmlLines_def terminate_Cons)

lemma buildMessage_headers_rest:
  "writeCustomHeaders (Headers email)
     (''From: '' @ From email @ CRLF @ ''To: '' @ Join (To email) '', '' @ CRLF @
      (if Cc email = [] then [] else ''Cc: '' @ Join (Cc email) '', '' @ CRLF) @
      ''Subject: '' @ encodeSubject env (Subject email) @ CRLF @
      ''Date: '' @ nowDate env @ CRLF @
      ''Message-ID: <'' @ showInt (nowMessageID env) @ ''@'' @ configHost env @ ''>'' @ CRLF) @
   terminate (priorityLines (Priority email)) @ ''MIME-Version: 1.0'' @ CRLF @ rest =
   terminate (headerLines env email) @ rest"
  using buildMessage_headers [of email env] by (simp only: append_assoc [symmetric])

lemma buildMessage_eq:
  "fst (buildMessage env email) =
     terminate (headerLines env email) @
     (if Attachments email = [] then alternativeBlock (innerBoundaryOf env) email
      else ''Content-Type: multipart/mixed; boundary='' @ dquote @ outerBoundaryOf env @ dquote @
           CRLF @ CRLF @ ''--'' @ outerBoundaryOf env @ CRLF @
           alternativeBlock (innerBoundaryOf env) email @ CRLF @
           concat (map (attachmentPart (outerBoundaryOf env)) (Attachments email)) @
           ''--'' @ outerBoundaryOf env @ ''--'' @ CRLF)"
proof -
  define hdr where "hdr = terminate (headerLines env email)"
  define inner where "inner = innerBoundaryOf env"
  define outer where "outer = outerBoundaryOf env"
  have p: "(if Priority email = PriorityHigh then
              WriteString (WriteString buf (''X-Priority: 1'' @ CRLF)) (''Importance: high'' @ CRLF)
            else if Priority email = PriorityLow then
              WriteString (WriteString buf (''X-Priority: 5'' @ CRLF)) (''Importance: low'' @ CRLF)
            else buf) = buf @ terminate (priorityLines (Priority email))" for buf
    by (simp add: priorityLines_def WriteString_def terminate_Cons)
  have c: "(if 0 < length (Cc email) then WriteString buf (''Cc: '' @ Join (Cc email) '', '' @ CRLF)
            else buf) =
           buf @ (if Cc email = [] then [] else ''Cc: '' @ Join (Cc email) '', '' @ CRLF)" for buf
    by (simp add: WriteString_def)
  have t: "(if TextBody email \<noteq> [] then
              (let buf = WriteString buf (''--'' @ b @ CRLF);
                   buf = WriteString buf (''Content-Type: text/plain; charset=UTF-8'' @ CRLF);
                   buf = WriteString buf CRLF;
                   buf = WriteString buf (TextBody email)
               in WriteString buf (CRLF @ CRLF))
            else buf) =
           buf @ (if TextBody email = [] then []
                  else ''--'' @ b @ CRLF @ ''Content-Type: text/plain; charset=UTF-8'' @ CRLF @ CRLF @
                       TextBody email @ CRLF @ CRLF)" for buf b
    by (simp add: WriteString_def Let_def)
  have h: "(if HTMLBody email \<noteq> [] then
              (let buf = WriteString buf (''--'' @ b @ CRLF);
                   buf = WriteString buf (''Content-Type: text/html; charset=UTF-8'' @ CRLF);
                   buf = WriteString buf CRLF;
                   buf = WriteString buf (HTMLBody email)
               in WriteString buf (CRLF @ CRLF))
            else buf) =
           buf @ (if HTMLBody email = [] then []
                  else ''--'' @ b @ CRLF @ ''Content-Type: text/html; charset=UTF-8'' @ CRLF @ CRLF @
                       HTMLBody email @ CRLF @ CRLF)" for buf b
    by (simp add: WriteString_def Let_def)
  have a: "(0 < length (Attachments email)) = (Attachments email \<noteq> [])"
    by simp
  show ?thesis
  proof (cases "Attachments email = []")
    case True
    show ?thesis
      unfolding buildMessage_def p c t h a
      unfolding Let_def WriteString_def
      by (simp only: True simp_thms if_True if_False append_assoc append_Nil fst_conv
          buildMessage_headers_rest alternativeBlock_eq innerBoundaryOf_def)
  next
    case False
    show ?thesis
      unfolding buildMessage_def p c t h a
      unfolding Let_def WriteString_def
      by (simp only: False simp_thms if_True if_False append_assoc append_Nil fst_conv
          buildMessage_headers_rest alternativeBlock_eq innerBoundaryOf_def outerBoundaryOf_def
          writeAttachments_eq)
  qed
qed

lemma buildMessage_lines: "fst (buildMessage env email) = terminate (messageLines env email)"
  by (simp add: buildMessage_eq messageLines_def alternativeBlock_def concat_attachmentPart
      terminate_Cons)

lemma showInt_small: "showInt 42 = ''42''" "showInt 41 = ''41''" "showInt 43 = ''43''"
  by (simp_all add: showInt_def showNat.simps [of 42] showNat.simps [of 41] showNat.simps [of 43]
      showNat_single digitChar_def)

lemmas sample_defs =
  plainEnv_def sampleBuilder_def NewEmailBuilder_def EmailBuilder_TextBody_def
  EmailBuilder_Subject_def EmailBuilder_To_def EmailBuilder_From_def EmailBuilder_Attach_def
  EmailBuilder_HTMLBody_def PriorityNormal_def PriorityHigh_def PriorityLow_def

lemmas lines_defs =
  headerLines_def alternativeBlock_def alternativeLines_def textLines_def htmlLines_def
  innerBoundaryOf_def outerBoundaryOf_def priorityLines_def attachmentPart_def
  attachmentLines_def attachmentHeaderLines_def messageLines_def

lemma lines76_short: "s \<noteq> [] \<Longrightarrow> length s \<le> 76 \<Longrightarrow> lines76 s = [s]"
  by (simp add: lines76_step)

text \<open>
  Claim C6. With no attachment the message is the header block followed by the
  \<^verbatim>\<open>multipart/alternative\<close> entity alone: its Content-Type header, the parts whose body
  is not empty, and its closing delimiter; \<^verbatim>\<open>multipart/mixed\<close> is not declared. With one
  or more attachments the header block is followed by the declaration of
  \<^verbatim>\<open>multipart/mixed\<close>, whose first part is that same \<^verbatim>\<open>multipart/alternative\<close> entity
  and whose next parts are the attachments in their order, before the closing delimiter.
\<close>

theorem buildMessage_structure:
  "(Attachments email = [] \<longrightarrow>
      fst (buildMessage env email) =
        terminate (headerLines env email) @ alternativeBlock (innerBoundaryOf env) email) \<and>
   (Attachments email \<noteq> [] \<longrightarrow>
      fst (buildMessage env email) =
        terminate (headerLines env email) @
        terminate [''Content-Type: multipart/mixed; boundary='' @ dquote @ outerBoundaryOf env @ dquote,
                   [], ''--'' @ outerBoundaryOf env] @
        alternativeBlock (innerBoundaryOf env) email @ CRLF @
        concat (map (attachmentPart (outerBoundaryOf env)) (Attachments email)) @
        terminate [''--'' @ outerBoundaryOf env @ ''--'']) \<and>
   alternativeBlock (innerBoundaryOf env) email =
     terminate
       ([''Content-Type: multipart/alternative; boundary='' @ dquote @ innerBoundaryOf env @ dquote,
         []] @
        (if TextBody email = [] then []
         else [''--'' @ innerBoundaryOf env, ''Content-Type: text/plain; charset=UTF-8'', [],
               TextBody email, []]) @
        (if HTMLBody email = [] then []
         else [''--'' @ innerBoundaryOf env, ''Content-Type: text/html; charset=UTF-8'', [],
               HTMLBody email, []]) @
        [''--'' @ innerBoundaryOf env @ ''--''])"
  by (simp add: buildMessage_eq terminate_Cons alternativeBlock_def alternativeLines_def
      textLines_def htmlLines_def)

theorem buildMessage_structure_witness:
  "Attachments sampleBuilder = [] \<and>
   fst (buildMessage plainEnv sampleBuilder) =
     terminate
       [''From: alice@example.org'', ''To: bob@example.org'', ''Subject: greetings'',
        ''Date: Mon, 02 Jan 2006 15:04:05 -0700'', ''Message-ID: <43@smtp.example.org>'',
        ''MIME-Version: 1.0'',
        ''Content-Type: multipart/alternative; boundary='' @ dquote @ ''inner_42'' @ dquote, [],
        ''--inner_42'', ''Content-Type: text/plain; charset=UTF-8'', [], ''hello'', [],
        ''--inner_42--''] \<and>
   Attachments (EmailBuilder_Attach ''a.bin'' ''application/octet-stream'' [1, 2, 3, 4] sampleBuilder)
     \<noteq> [] \<and>
   fst (buildMessage plainEnv
          (EmailBuilder_Attach ''a.bin'' ''application/octet-stream'' [1, 2, 3, 4] sampleBuilder)) =
     terminate
       [''From: alice@example.org'', ''To: bob@example.org'', ''Subject: greetings'',
        ''Date: Mon, 02 Jan 2006 15:04:05 -0700'', ''Message-ID: <43@smtp.example.org>'',
        ''MIME-Version: 1.0'',
        ''Content-Type: multipart/mixed; boundary='' @ dquote @ ''outer_41'' @ dquote, [],
        ''--outer_41'',
        ''Content-Type: multipart/alternative; boundary='' @ dquote @ ''inner_42'' @ dquote, [],
        ''--inner_42'', ''Content-Type: text/plain; charset=UTF-8'', [], ''hello'', [],
        ''--inner_42--'', [],
        ''--outer_41'',
        ''Content-Type: application/octet-stream; name='' @ dquote @ ''a.bin'' @ dquote,
        ''Content-Transfer-Encoding: base64'',
        ''Content-Disposition: attachment; filename='' @ dquote @ ''a.bin'' @ dquote, [],
        ''AQIDBA=='', [],
        ''--outer_41--'']"
proof -
  define e2 where
    "e2 = EmailBuilder_Attach ''a.bin'' ''application/octet-stream'' [1, 2, 3, 4] sampleBuilder"
  have n1: "Attachments sampleBuilder = []"
    by (simp add: sample_defs)
  have n2: "Attachments e2 \<noteq> []"
    by (simp add: e2_def sample_defs)
  from buildMessage_structure [of sampleBuilder plainEnv] n1
  have a: "fst (buildMessage plainEnv sampleBuilder) =
      terminate (headerLines plainEnv sampleBuilder) @
      alternativeBlock (innerBoundaryOf plainEnv) sampleBuilder"
    by blast
  from buildMessage_structure [of e2 plainEnv] n2
  have b: "fst (buildMessage plainEnv e2) =
        terminate (headerLines plainEnv e2) @
        terminate [''Content-Type: multipart/mixed; boundary='' @ dquote @ outerBoundaryOf plainEnv @ dquote,
                   [], ''--'' @ outerBoundaryOf plainEnv] @
        alternativeBlock (innerBoundaryOf plainEnv) e2 @ CRLF @
        concat (map (attachmentPart (outerBoundaryOf plainEnv)) (Attachments e2)) @
        terminate [''--'' @ outerBoundaryOf plainEnv @ ''--'']"
    by blast
  have "Attachments sampleBuilder = []"
    by (rule n1)
  moreover have "fst (buildMessage plainEnv sampleBuilder) =
     terminate
       [''From: alice@example.org'', ''To: bob@example.org'', ''Subject: greetings'',
        ''Date: Mon, 02 Jan 2006 15:04:05 -0700'', ''Message-ID: <43@smtp.example.org>'',
        ''MIME-Version: 1.0'',
        ''Content-Type: multipart/alternative; boundary='' @ dquote @ ''inner_42'' @ dquote, [],
        ''--inner_42'', ''Content-Type: text/plain; charset=UTF-8'', [], ''hello'', [],
        ''--inner_42--'']"
    unfolding a by (simp add: lines_defs sample_defs showInt_small terminate_Cons)
  moreover have "Attachments e2 \<noteq> []"
    by (rule n2)
  moreover have "fst (buildMessage plainEnv e2) =
     terminate
       [''From: alice@example.org'', ''To: bob@example.org'', ''Subject: greetings'',
        ''Date: Mon, 02 Jan 2006 15:04:05 -0700'', ''Message-ID: <43@smtp.example.org>'',
        ''MIME-Version: 1.0'',
        ''Content-Type: multipart/mixed; boundary='' @ dquote @ ''outer_41'' @ dquote, [],
        ''--outer_41'',
        ''Content-Type: multipart/alternative; boundary='' @ dquote @ ''inner_42'' @ dquote, [],
        ''--inner_42'', ''Content-Type: text/plain; charset=UTF-8'', [], ''hello'', [],
        ''--inner_42--'', [],
        ''--outer_41'',
        ''Content-Type: application/octet-stream; name='' @ dquote @ ''a.bin'' @ dquote,
        ''Content-Transfer-Encoding: base64'',
        ''Content-Disposition: attachment; filename='' @ dquote @ ''a.bin'' @ dquote, [],
        ''AQIDBA=='', [],
        ''--outer_41--'']"
    unfolding b
    by (simp add: e2_def lines_defs sample_defs showInt_small terminate_Cons lines76_short
        Let_def encChar_def encodeStd_def)
  ultimately show ?thesis
    unfolding e2_def by blast
qed

subsection \<open>Attachments\<close>

lemma encodedBody_lines:
  "encodedBody att = terminate (lines76 (EncodeToString (Data att))) \<and>
   crlfLines (encodedBody att) = lines76 (EncodeToString (Data att))"
proof -
  let ?ls = "lines76 (EncodeToString (Data att))"
  have body: "encodedBody att = terminate ?ls"
    by (simp add: encodedBody_def writeEncoded_eq)
  have "\<forall>l \<in> set ?ls. CR \<notin> set l"
    using lines76_props EncodeToString_alphabet CR_not_base64 by blast
  then show ?thesis
    by (simp add: body crlfLines_def crlfLines_terminate)
qed

text \<open>
  Claim C7. For every attachment, the text that the encoding loop writes, cut at its
  CRLFs, is a list of lines of at most 76 characters whose concatenation decodes to the
  bytes of the attachment; and for every attachment of an email, the built message holds
  that text right after the header of the attachment's part, followed by one empty line.
\<close>

theorem attachment_roundtrip:
  "DecodeString (concat (crlfLines (encodedBody att))) = Some (Data att) \<and>
   (\<forall>l \<in> set (crlfLines (encodedBody att)). length l \<le> 76) \<and>
   (att \<in> set (Attachments email) \<longrightarrow>
      (\<exists>before after. fst (buildMessage env email) =
          before @ terminate (attachmentHeaderLines (outerBoundaryOf env) att) @
          encodedBody att @ CRLF @ after))"
proof -
  note ls = encodedBody_lines [of att, THEN conjunct2]
  have a: "DecodeString (concat (crlfLines (encodedBody att))) = Some (Data att)"
    by (simp add: ls concat_lines76 DecodeString_EncodeToString)
  have b: "\<forall>l \<in> set (crlfLines (encodedBody att)). length l \<le> 76"
    using lines76_props by (simp add: ls)
  have c: "\<exists>before after. fst (buildMessage env email) =
          before @ terminate (attachmentHeaderLines (outerBoundaryOf env) att) @
          encodedBody att @ CRLF @ after"
    if "att \<in> set (Attachments email)"
  proof -
    from that obtain xs ys where xy: "Attachments email = xs @ att # ys"
      by (meson split_list)
    have "fst (buildMessage env email) =
        (terminate (headerLines env email) @
         ''Content-Type: multipart/mixed; boundary='' @ dquote @ outerBoundaryOf env @ dquote @
         CRLF @ CRLF @ ''--'' @ outerBoundaryOf env @ CRLF @
         alternativeBlock (innerBoundaryOf env) email @ CRLF @
         concat (map (attachmentPart (outerBoundaryOf env)) xs)) @
        terminate (attachmentHeaderLines (outerBoundaryOf env) att) @ encodedBody att @ CRLF @
        (concat (map (attachmentPart (outerBoundaryOf env)) ys) @
         ''--'' @ outerBoundaryOf env @ ''--'' @ CRLF)"
      unfolding buildMessage_eq xy by (simp add: attachmentPart_eq)
    then show ?thesis by blast
  qed
  show ?thesis using a b c by blast
qed

theorem attachment_roundtrip_witness:
  "crlfLines (encodedBody longAttachment) =
     [''QUFBQUFBQUFBQUFBQUFBQUFBQUFBQUFBQUFBQUFBQUFBQUFBQUFBQUFBQUFBQUFBQUFBQUFBQUFB'',
      ''QQ==''] \<and>
   DecodeString (concat (crlfLines (encodedBody longAttachment))) = Some (Data longAttachment) \<and>
   list_all (\<lambda>l. length l \<le> 76) (crlfLines (encodedBody longAttachment))"
proof -
  have e: "EncodeToString (Data longAttachment) =
      ''QUFBQUFBQUFBQUFBQUFBQUFBQUFBQUFBQUFBQUFBQUFBQUFBQUFBQUFBQUFBQUFBQUFBQUFBQUFB'' @ ''QQ==''"
    by (simp add: longAttachment_def Let_def encChar_def encodeStd_def)
  have l: "crlfLines (encodedBody longAttachment) =
     [''QUFBQUFBQUFBQUFBQUFBQUFBQUFBQUFBQUFBQUFBQUFBQUFBQUFBQUFBQUFBQUFBQUFBQUFBQUFB'',
      ''QQ=='']"
    unfolding encodedBody_lines [of longAttachment, THEN conjunct2] e
    by (simp add: lines76_step)
  from attachment_roundtrip [of longAttachment]
  have "DecodeString (concat (crlfLines (encodedBody longAttachment))) = Some (Data longAttachment)"
    and "\<forall>l \<in> set (crlfLines (encodedBody longAttachment)). length l \<le> 76"
    by blast+
  then show ?thesis using l by (simp add: list_all_iff)
qed

section \<open>Well-formedness of the built message\<close>

subsection \<open>Line terminators\<close>

lemma CR_neq_LF [simp]: "CR \<noteq> LF" "LF \<noteq> CR"
  by (simp_all add: CR_def LF_def)

lemma crlfClean_append: "crlfClean a \<Longrightarrow> crlfClean b \<Longrightarrow> crlfClean (a @ b)"
proof (induction a rule: crlfClean.induct)
  case 1
  then show ?case by simp
next
  case (2 c)
  then show ?case by (cases b) auto
next
  case (3 c d s)
  then show ?case by (auto split: if_splits)
qed

lemma crlfClean_CRLF [simp]: "crlfClean CRLF"
  by (simp add: CRLF_def)

lemma crlfClean_terminate: "\<forall>l \<in> set ls. crlfClean l \<Longrightarrow> crlfClean (terminate ls)"
  by (induction ls) (simp_all add: terminate_Cons crlfClean_append)

lemma crlfClean_plain: "CR \<notin> set s \<Longrightarrow> LF \<notin> set s \<Longrightarrow> crlfClean s"
  by (induction s rule: crlfClean.induct) auto

lemma showNat_digits: "set (showNat n) \<subseteq> set ''0123456789''"
proof (induction n rule: showNat.induct)
  case (1 n)
  have d: "digitChar k \<in> set ''0123456789''" if "k < 10" for k
    using that unfolding digitChar_def by (intro nth_mem) simp
  show ?case
  proof (cases "n < 10")
    case True
    then show ?thesis using d [of n] by (subst showNat.simps) simp
  next
    case False
    have "n mod 10 < 10" by simp
    then show ?thesis using 1 False d [of "n mod 10"]
      by (subst showNat.simps) simp
  qed
qed

lemma showInt_chars: "set (showInt n) \<subseteq> set ''-0123456789''"
proof -
  have l: "set ''-0123456789'' = insert (CHR ''-'') (set ''0123456789'')"
    by simp
  show ?thesis
  proof (cases "n < 0")
    case True
    then have "set (showInt n) = insert (CHR ''-'') (set (showNat (nat (- n))))"
      by (simp add: showInt_def)
    then show ?thesis
      unfolding l using showNat_digits [of "nat (- n)"] by (metis insert_mono)
  next
    case False
    then have "set (showInt n) = set (showNat (nat n))"
      by (simp add: showInt_def)
    then show ?thesis
      unfolding l using showNat_digits [of "nat n"] by (metis subset_insertI2)
  qed
qed

lemma showInt_no_CR: "CR \<notin> set (showInt n)"
proof
  assume "CR \<in> set (showInt n)"
  then have "CR \<in> set ''-0123456789''" using showInt_chars [of n] by (rule rev_subsetD)
  then show False by (simp add: CR_def)
qed

lemma showInt_no_LF: "LF \<notin> set (showInt n)"
proof
  assume "LF \<in> set (showInt n)"
  then have "LF \<in> set ''-0123456789''" using showInt_chars [of n] by (rule rev_subsetD)
  then show False by (simp add: LF_def)
qed

lemma crlfClean_showInt [simp]: "crlfClean (showInt n)"
  by (rule crlfClean_plain [OF showInt_no_CR showInt_no_LF])

lemma crlfClean_Cons_plain: "c \<noteq> CR \<Longrightarrow> c \<noteq> LF \<Longrightarrow> crlfClean (c # s) = crlfClean s"
  by (cases s) auto

lemma crlfClean_append_iff: "crlfClean u \<Longrightarrow> crlfClean (u @ s) = crlfClean s"
proof (induction u rule: crlfClean.induct)
  case 1
  show ?case by simp
next
  case (2 c)
  then show ?case by (simp add: crlfClean_Cons_plain)
next
  case (3 c d t)
  then show ?case by (auto split: if_splits)
qed

lemma crlfClean_Join:
  "\<forall>x \<in> set xs. crlfClean x \<Longrightarrow> crlfClean sep \<Longrightarrow> crlfClean (Join xs sep)"
  by (induction xs sep rule: Join.induct) (simp_all add: crlfClean_append)

lemma crlfClean_base64: "l \<in> set (lines76 (EncodeToString src)) \<Longrightarrow> crlfClean l"
proof (rule crlfClean_plain)
  assume l: "l \<in> set (lines76 (EncodeToString src))"
  then have s: "set l \<subseteq> insert (CHR ''='') (set encodeStd)"
    using lines76_props [of l "EncodeToString src"] EncodeToString_alphabet [of src] by blast
  show "CR \<notin> set l" using s CR_not_base64 by blast
  show "LF \<notin> set l" using s LF_not_base64 by blast
qed

lemmas crlf_plain = crlfClean_Cons_plain crlfClean_append_iff CR_def LF_def

lemma crlfClean_headerLines:
  assumes "\<forall>u \<in> set (copiedTexts env email). crlfClean u"
  shows "list_all crlfClean (headerLines env email)"
proof -
  have u: "crlfClean (From email)" "\<forall>x \<in> set (To email). crlfClean x"
    "\<forall>x \<in> set (Cc email). crlfClean x" "crlfClean (encodeSubject env (Subject email))"
    "crlfClean (nowDate env)" "crlfClean (configHost env)"
    using assms by (simp_all add: copiedTexts_def)
  have hs: "crlfClean k \<and> crlfClean v" if "(k, v) \<in> set (Headers email)" for k v
    using assms that by (force simp: copiedTexts_def)
  have sep: "crlfClean '', ''"
    by (simp add: CR_def LF_def)
  have j: "crlfClean (Join (To email) '', '')" "crlfClean (Join (Cc email) '', '')"
    using u sep by (simp_all add: crlfClean_Join)
  have c: "list_all crlfClean (map (\<lambda>(k, v). k @ '': '' @ v) (Headers email))"
    using hs by (auto simp: list_all_iff crlf_plain)
  have p: "list_all crlfClean (priorityLines (Priority email))"
    by (simp add: priorityLines_def crlf_plain)
  show ?thesis
    using u j c p by (simp add: headerLines_def crlf_plain)
qed

lemma crlfClean_alternativeLines:
  assumes "crlfClean (TextBody email)" "crlfClean (HTMLBody email)"
  shows "list_all crlfClean (alternativeLines (''inner_'' @ showInt n) email)"
  using assms
  by (simp add: alternativeLines_def textLines_def htmlLines_def dquote_def crlf_plain)

lemma crlfClean_attachmentLines:
  assumes "crlfClean (ContentType att)" "crlfClean (Filename att)"
  shows "list_all crlfClean (attachmentLines (''outer_'' @ showInt n) att)"
proof -
  have "list_all crlfClean (lines76 (EncodeToString (Data att)))"
    using crlfClean_base64 by (simp add: list_all_iff)
  then show ?thesis using assms
    by (simp add: attachmentLines_def attachmentHeaderLines_def dquote_def crlf_plain)
qed

lemma crlfClean_messageLines:
  assumes "\<forall>u \<in> set (copiedTexts env email). crlfClean u"
  shows "list_all crlfClean (messageLines env email)"
proof -
  have b: "crlfClean (TextBody email)" "crlfClean (HTMLBody email)"
    using assms by (simp_all add: copiedTexts_def)
  have t: "crlfClean (ContentType att) \<and> crlfClean (Filename att)"
    if "att \<in> set (Attachments email)" for att
    using assms that by (force simp: copiedTexts_def)
  have ts: "list_all crlfClean (concat (map (attachmentLines (''outer_'' @ showInt n)) (Attachments email)))"
    for n
    using t crlfClean_attachmentLines by (simp add: list_all_iff) blast
  show ?thesis
    using crlfClean_headerLines [OF assms] crlfClean_alternativeLines [OF b] ts
    by (simp add: messageLines_def innerBoundaryOf_def outerBoundaryOf_def dquote_def crlf_plain)
qed

lemma crlfClean_buildMessage:
  "\<forall>u \<in> set (copiedTexts env email). crlfClean u \<Longrightarrow> crlfClean (fst (buildMessage env email))"
  unfolding buildMessage_lines
  using crlfClean_messageLines [of env email] by (intro crlfClean_terminate) (simp add: list_all_iff)

end
